theory Spec2Isabelle
  imports Complex_Main "HOL-Library.AList" "HOL-Library.Multiset" "HOL-Library.Word"
begin

chapter \<open>The zero-copy bridge and its adaptive resource layer\<close>

text \<open>
  A shallow embedding of the Python sources: the batch optimizer
  (\<^verbatim>\<open>ane-bridge/batch_optimizer.py\<close>), the resource monitor
  (\<^verbatim>\<open>ane-bridge/ane_resource_monitor.py\<close>), the cache predictor
  (\<^verbatim>\<open>ane-bridge/cache_predictor.py\<close>), the shared memory bridge
  (\<^verbatim>\<open>ane-bridge/shared_memory_bridge.py\<close>) and the memory-mapped segment format
  (\<^verbatim>\<open>docker/apple-silicon-m4/shared-memory-bridge.py\<close>).

  Conventions. Python \<^verbatim>\<open>int\<close> is \<^typ>\<open>int\<close>; Python \<^verbatim>\<open>float\<close> is \<^typ>\<open>real\<close>
  (the comparisons and averages below are read over the reals: rounding is not modelled);
  a \<^verbatim>\<open>dict\<close> that is read with \<^verbatim>\<open>.get(key, default)\<close> is a record of optional
  fields, \<^const>\<open>None\<close> for an absent key; a \<^verbatim>\<open>dict\<close> that is iterated or counted is an
  association list in insertion order. What the code reads from its surroundings
  (the clock, \<^verbatim>\<open>psutil\<close>, the outcome of an operating system call) is an argument of
  the model. An exception is a value of a sum type, and a \<^verbatim>\<open>try/except\<close> is the case
  distinction on it.
\<close>

section \<open>Batch optimizer\<close>

subsection \<open>Data\<close>

record BatchConfig =
  high_priority_batch_size :: int
  normal_priority_batch_size :: int
  max_concurrent :: int
  adaptive_threshold :: real
  performance_target_ms :: real

text \<open>One entry of \<^verbatim>\<open>adaptation_history\<close>.\<close>

record adaptation =
  ad_timestamp :: real
  ad_system_load :: real
  ad_high_priority_batch_size :: int
  ad_normal_priority_batch_size :: int
  ad_max_concurrent :: int

text \<open>One entry of \<^verbatim>\<open>performance_history\<close>.\<close>

record performance_sample =
  ps_timestamp :: real
  ps_ane_usage :: real
  ps_throughput :: real
  ps_batch_size_high :: int
  ps_batch_size_normal :: int

record optimizer =
  current_config :: BatchConfig
  adaptive_sizing :: bool
  performance_history :: "performance_sample list"
  adaptation_history :: "adaptation list"

text \<open>\<^verbatim>\<open>deque(maxlen=n).append(x)\<close>: the oldest entries fall out.\<close>

definition deque_append :: "nat \<Rightarrow> 'a list \<Rightarrow> 'a \<Rightarrow> 'a list" where
  "deque_append n xs x = (let ys = xs @ [x] in drop (length ys - n) ys)"

text \<open>\<^verbatim>\<open>DynamicBatchOptimizer.__init__\<close>.\<close>

definition init_optimizer :: "int \<Rightarrow> bool \<Rightarrow> optimizer" where
  "init_optimizer initial_size adaptive =
     \<lparr> current_config =
         \<lparr> high_priority_batch_size = max 2 (initial_size div 2),
           normal_priority_batch_size = initial_size,
           max_concurrent = 8,
           adaptive_threshold = 0.7,
           performance_target_ms = 5 \<rparr>,
       adaptive_sizing = adaptive,
       performance_history = [],
       adaptation_history = [] \<rparr>"

subsection \<open>Adaptive sizing\<close>

text \<open>
  \<^verbatim>\<open>_adapt_batch_sizes\<close>. The argument is \<^verbatim>\<open>system_state.get("system_load")\<close>
  (absent: 50.0) and the clock reading stored with the history entry.
\<close>

definition adapt_config :: "real \<Rightarrow> BatchConfig \<Rightarrow> BatchConfig" where
  "adapt_config system_load c =
     (if system_load < 30 then
        c\<lparr> high_priority_batch_size := min 10 (high_priority_batch_size c + 1),
           normal_priority_batch_size := min 20 (normal_priority_batch_size c + 2),
           max_concurrent := min 12 (max_concurrent c + 1) \<rparr>
      else if system_load > 80 then
        c\<lparr> high_priority_batch_size := max 1 (high_priority_batch_size c - 1),
           normal_priority_batch_size := max 2 (normal_priority_batch_size c - 2),
           max_concurrent := max 4 (max_concurrent c - 1) \<rparr>
      else c)"

definition adapt_batch_sizes :: "real \<Rightarrow> real option \<Rightarrow> optimizer \<Rightarrow> optimizer" where
  "adapt_batch_sizes now load_entry opt =
     (let system_load = (case load_entry of None \<Rightarrow> 50 | Some l \<Rightarrow> l);
          c = adapt_config system_load (current_config opt)
      in opt\<lparr> current_config := c,
              adaptation_history :=
                deque_append 50 (adaptation_history opt)
                  \<lparr> ad_timestamp = now,
                    ad_system_load = system_load,
                    ad_high_priority_batch_size = high_priority_batch_size c,
                    ad_normal_priority_batch_size = normal_priority_batch_size c,
                    ad_max_concurrent = max_concurrent c \<rparr> \<rparr>)"

text \<open>\<^verbatim>\<open>_increase_batch_sizes\<close> and \<^verbatim>\<open>_decrease_batch_sizes\<close>.\<close>

definition increase_batch_sizes :: "BatchConfig \<Rightarrow> BatchConfig" where
  "increase_batch_sizes c =
     c\<lparr> high_priority_batch_size := min 10 (high_priority_batch_size c + 1),
        normal_priority_batch_size := min 20 (normal_priority_batch_size c + 1) \<rparr>"

definition decrease_batch_sizes :: "BatchConfig \<Rightarrow> BatchConfig" where
  "decrease_batch_sizes c =
     c\<lparr> high_priority_batch_size := max 1 (high_priority_batch_size c - 1),
        normal_priority_batch_size := max 2 (normal_priority_batch_size c - 1) \<rparr>"

text \<open>
  \<^verbatim>\<open>adjust_for_utilization\<close>: the two keys it reads from the utilization dictionary
  (absent: 0.0) and the clock.
\<close>

definition adjust_for_utilization ::
    "real \<Rightarrow> real option \<Rightarrow> real option \<Rightarrow> optimizer \<Rightarrow> optimizer" where
  "adjust_for_utilization now usage_entry throughput_entry opt =
     (let ane_usage = (case usage_entry of None \<Rightarrow> 0 | Some u \<Rightarrow> u);
          throughput = (case throughput_entry of None \<Rightarrow> 0 | Some t \<Rightarrow> t);
          c = current_config opt;
          hist = deque_append 100 (performance_history opt)
                   \<lparr> ps_timestamp = now,
                     ps_ane_usage = ane_usage,
                     ps_throughput = throughput,
                     ps_batch_size_high = high_priority_batch_size c,
                     ps_batch_size_normal = normal_priority_batch_size c \<rparr>
      in opt\<lparr> performance_history := hist,
              current_config :=
                (if ane_usage < 0.5 then increase_batch_sizes c
                 else if ane_usage > 0.8 then decrease_batch_sizes c
                 else c) \<rparr>)"

text \<open>A call of either tuning entry point, with what it reads.\<close>

datatype adjustment =
    Adapt real "real option"
  | Adjust real "real option" "real option"

fun apply_adjustment :: "optimizer \<Rightarrow> adjustment \<Rightarrow> optimizer" where
  "apply_adjustment opt (Adapt now l) = adapt_batch_sizes now l opt"
| "apply_adjustment opt (Adjust now u t) = adjust_for_utilization now u t opt"

definition run_adjustments :: "optimizer \<Rightarrow> adjustment list \<Rightarrow> optimizer" where
  "run_adjustments opt as = foldl apply_adjustment opt as"

text \<open>The sizes lie within the limits the tuning steps clamp to.\<close>

definition within_limits :: "BatchConfig \<Rightarrow> bool" where
  "within_limits c \<longleftrightarrow>
     normal_priority_batch_size c \<le> 20 \<and>
     1 \<le> high_priority_batch_size c \<and> high_priority_batch_size c \<le> 10"

subsection \<open>Limits and monotonicity of the tuning steps\<close>

lemma within_limits_adapt_config:
  "within_limits c \<Longrightarrow> within_limits (adapt_config l c)"
  by (simp add: within_limits_def adapt_config_def)

lemma within_limits_apply_adjustment:
  assumes "within_limits (current_config opt)"
  shows "within_limits (current_config (apply_adjustment opt a))"
proof (cases a)
  case (Adapt now l)
  then show ?thesis
    using assms by (simp add: adapt_batch_sizes_def Let_def within_limits_adapt_config)
next
  case (Adjust now u t)
  then show ?thesis
    using assms
    by (simp add: adjust_for_utilization_def Let_def within_limits_def
        increase_batch_sizes_def decrease_batch_sizes_def)
qed

lemma within_limits_run_adjustments:
  "within_limits (current_config opt) \<Longrightarrow>
   within_limits (current_config (run_adjustments opt as))"
  unfolding run_adjustments_def
  by (induction as arbitrary: opt) (simp_all add: within_limits_apply_adjustment)

lemma adapt_low_load_normal_mono:
  assumes "normal_priority_batch_size c \<le> 20" and "l < 30"
  shows "normal_priority_batch_size c \<le> normal_priority_batch_size (adapt_config l c)"
  using assms by (simp add: adapt_config_def)

text \<open>
  Claim C8 (as amended). Start from a configuration whose sizes are within the limits
  (normal size at most 20, high size between 1 and 10; the constructor gives one for every
  \<^verbatim>\<open>initial_size\<close> up to 20). Then after any sequence of tuning calls, of either entry
  point and with any readings, the sizes are still within the limits; and a following
  \<^verbatim>\<open>_adapt_batch_sizes\<close> call whose system load is below the low-load threshold 30 does
  not decrease the normal-priority batch size.
\<close>

theorem C8_tuning_within_limits_and_monotone:
  assumes "within_limits (current_config opt)"
  shows "within_limits (current_config (run_adjustments opt as)) \<and>
         (\<forall>now l. l < 30 \<longrightarrow>
            normal_priority_batch_size (current_config (run_adjustments opt as))
              \<le> normal_priority_batch_size
                   (current_config (adapt_batch_sizes now (Some l) (run_adjustments opt as))))"
proof -
  have lim: "within_limits (current_config (run_adjustments opt as))"
    using assms by (rule within_limits_run_adjustments)
  then have "normal_priority_batch_size (current_config (run_adjustments opt as)) \<le> 20"
    by (simp add: within_limits_def)
  then have "\<forall>now l. l < 30 \<longrightarrow>
            normal_priority_batch_size (current_config (run_adjustments opt as))
              \<le> normal_priority_batch_size
                   (current_config (adapt_batch_sizes now (Some l) (run_adjustments opt as)))"
    by (simp add: adapt_batch_sizes_def Let_def adapt_low_load_normal_mono)
  with lim show ?thesis by simp
qed

text \<open>
  The default optimizer (\<^verbatim>\<open>initial_size=5\<close>) under loads 90, 60, 20 and then 20 again:
  the normal size goes 5, 3, 3, 5 and the last low-load call raises it to 7.
\<close>

theorem C8_tuning_witness:
  "within_limits (current_config (init_optimizer 5 True)) \<and>
   within_limits (current_config (run_adjustments (init_optimizer 5 True)
      [Adapt 1 (Some 90), Adapt 2 (Some 60), Adapt 3 (Some 20)])) \<and>
   normal_priority_batch_size (current_config (run_adjustments (init_optimizer 5 True)
      [Adapt 1 (Some 90), Adapt 2 (Some 60), Adapt 3 (Some 20)])) = 5 \<and>
   normal_priority_batch_size (current_config (adapt_batch_sizes 4 (Some 20)
      (run_adjustments (init_optimizer 5 True)
        [Adapt 1 (Some 90), Adapt 2 (Some 60), Adapt 3 (Some 20)]))) = 7"
proof -
  have h: "within_limits (current_config (init_optimizer 5 True))"
    by (simp add: within_limits_def init_optimizer_def)
  show ?thesis
    using h C8_tuning_within_limits_and_monotone [OF h,
        of "[Adapt 1 (Some 90), Adapt 2 (Some 60), Adapt 3 (Some 20)]"]
    by (simp add: run_adjustments_def adapt_batch_sizes_def adapt_config_def Let_def
        init_optimizer_def)
qed

text \<open>
  The claim as stated, for every starting configuration, fails: an optimizer built with
  \<^verbatim>\<open>initial_size=30\<close> starts with sizes 15 and 30. A call at load 20 lowers the normal
  size from 30 to 20, and a call at load 50 leaves both sizes above their maxima.
\<close>

theorem C8_unbounded_start_counterexample:
  "normal_priority_batch_size
     (current_config (adapt_batch_sizes 1 (Some 20) (init_optimizer 30 True)))
     < normal_priority_batch_size (current_config (init_optimizer 30 True)) \<and>
   normal_priority_batch_size
     (current_config (run_adjustments (init_optimizer 30 True) [Adapt 1 (Some 50)])) > 20 \<and>
   high_priority_batch_size
     (current_config (run_adjustments (init_optimizer 30 True) [Adapt 1 (Some 50)])) > 10"
  by (simp add: run_adjustments_def adapt_batch_sizes_def adapt_config_def Let_def
      init_optimizer_def)

subsection \<open>Batch assembly\<close>

text \<open>
  A request is a dictionary; these are the keys the optimizer reads, \<^const>\<open>None\<close> for
  an absent key.
\<close>

record request =
  req_id :: "string option"
  req_priority :: "string option"
  req_recognition_level :: "string option"
  req_image_data :: "string option"
  req_languages :: "string list option"

record PrioritizedBatch =
  requests :: "request list"
  priority :: string
  estimated_processing_time_ms :: real
  batch_id :: string

datatype py_exception =
    ValueError
  | ZeroDivisionError
  | RuntimeError string
  | TimeoutError string

text \<open>\<^verbatim>\<open>str(n)\<close> for a natural number.\<close>

definition digit_char :: "nat \<Rightarrow> char" where
  "digit_char d = ''0123456789'' ! d"

function str_nat :: "nat \<Rightarrow> string" where
  "str_nat n = (if n < 10 then [digit_char n] else str_nat (n div 10) @ [digit_char (n mod 10)])"
  by pat_completeness auto
termination
  by (relation "measure id") auto

declare str_nat.simps [simp del]

text \<open>\<^verbatim>\<open>r.get("priority", "normal")\<close>.\<close>

definition get_priority :: "request \<Rightarrow> string" where
  "get_priority r = (case req_priority r of None \<Rightarrow> ''normal'' | Some p \<Rightarrow> p)"

text \<open>
  The loop \<^verbatim>\<open>for i in range(0, len(xs), size)\<close> of \<^verbatim>\<open>_create_prioritized_batches\<close>
  for a positive step, from index \<open>i\<close> on: one batch \<^verbatim>\<open>xs[i : i + size]\<close> per round.
\<close>

function batch_loop :: "string \<Rightarrow> real \<Rightarrow> nat \<Rightarrow> request list \<Rightarrow> nat \<Rightarrow> PrioritizedBatch list" where
  "batch_loop label target step xs i =
     (if step = 0 \<or> length xs \<le> i then []
      else \<lparr> requests = take step (drop i xs),
             priority = label,
             estimated_processing_time_ms = real (length (take step (drop i xs))) * target,
             batch_id = label @ ''_priority_'' @ str_nat (i div step) \<rparr>
           # batch_loop label target step xs (i + step))"
  by pat_completeness auto
termination
  by (relation "measure (\<lambda>(label, target, step, xs, i). length xs - i)") auto

declare batch_loop.simps [simp del]

text \<open>
  The same loop for any integer step: \<^verbatim>\<open>range\<close> raises \<^verbatim>\<open>ValueError\<close> on step 0
  and is empty for a negative step.
\<close>

definition priority_batches ::
    "string \<Rightarrow> real \<Rightarrow> int \<Rightarrow> request list \<Rightarrow> py_exception + PrioritizedBatch list" where
  "priority_batches label target step xs =
     (if step = 0 then Inl ValueError
      else if step < 0 then Inr []
      else Inr (batch_loop label target (nat step) xs 0))"

text \<open>\<^verbatim>\<open>priority_order.get(p, 1)\<close>.\<close>

definition priority_order :: "string \<Rightarrow> nat" where
  "priority_order p =
     (if p = ''high'' then 0 else if p = ''normal'' then 1 else if p = ''low'' then 2 else 1)"

definition fallback_batch :: "BatchConfig \<Rightarrow> request list \<Rightarrow> PrioritizedBatch" where
  "fallback_batch c rs =
     \<lparr> requests = rs,
       priority = ''normal'',
       estimated_processing_time_ms = real (length rs) * performance_target_ms c,
       batch_id = ''fallback_batch'' \<rparr>"

text \<open>
  \<^verbatim>\<open>_create_prioritized_batches\<close>: the three filters, the three loops, the stable sort
  by priority; the \<^verbatim>\<open>except\<close> branch returns the single fallback batch.
\<close>

definition create_prioritized_batches :: "BatchConfig \<Rightarrow> request list \<Rightarrow> PrioritizedBatch list" where
  "create_prioritized_batches c rs =
     (let high_priority_requests = filter (\<lambda>r. get_priority r = ''high'') rs;
          normal_priority_requests = filter (\<lambda>r. get_priority r = ''normal'') rs;
          low_priority_requests = filter (\<lambda>r. get_priority r = ''low'') rs;
          target = performance_target_ms c
      in case priority_batches ''high'' target (high_priority_batch_size c)
                high_priority_requests of
           Inl e \<Rightarrow> [fallback_batch c rs]
         | Inr hs \<Rightarrow>
            (case priority_batches ''normal'' target (normal_priority_batch_size c)
                    normal_priority_requests of
               Inl e \<Rightarrow> [fallback_batch c rs]
             | Inr ns \<Rightarrow>
                (case priority_batches ''low'' target
                        (max (normal_priority_batch_size c) 10) low_priority_requests of
                   Inl e \<Rightarrow> [fallback_batch c rs]
                 | Inr ls \<Rightarrow> sort_key (\<lambda>b. priority_order (priority b)) (hs @ ns @ ls))))"

subsection \<open>Sub-batches of similar requests\<close>

text \<open>\<^verbatim>\<open>request.get("recognition_level", "accurate")\<close> and \<^verbatim>\<open>len(r.get("image_data", ""))\<close>.\<close>

definition get_recognition_level :: "request \<Rightarrow> string" where
  "get_recognition_level r = (case req_recognition_level r of None \<Rightarrow> ''accurate'' | Some l \<Rightarrow> l)"

definition image_data_len :: "request \<Rightarrow> nat" where
  "image_data_len r = (case req_image_data r of None \<Rightarrow> 0 | Some d \<Rightarrow> length d)"

definition get_image_size_category :: "nat \<Rightarrow> string" where
  "get_image_size_category image_size =
     (if image_size < 50 * 1024 then ''small''
      else if image_size < 200 * 1024 then ''medium''
      else if image_size < 500 * 1024 then ''large''
      else ''xlarge'')"

text \<open>
  The dictionary \<^verbatim>\<open>level_groups\<close>, in insertion order: a request joins the list of its
  level, and a new level is added at the end.
\<close>

definition level_groups_add :: "(string \<times> request list) list \<Rightarrow> request \<Rightarrow> (string \<times> request list) list" where
  "level_groups_add groups r =
     (let level = get_recognition_level r
      in case map_of groups level of
           None \<Rightarrow> AList.update level [r] groups
         | Some g \<Rightarrow> AList.update level (g @ [r]) groups)"

definition level_groups :: "request list \<Rightarrow> (string \<times> request list) list" where
  "level_groups rs = foldl level_groups_add [] rs"

text \<open>
  The inner loop over the size-sorted requests of one level: \<open>cur\<close> is
  \<^verbatim>\<open>current_group\<close>, \<open>cat\<close> is \<^verbatim>\<open>current_size_category\<close>, and the result is what the
  loop and the lines after it append to \<^verbatim>\<open>final_groups\<close>.
\<close>

fun size_runs :: "request list \<Rightarrow> request list \<Rightarrow> string option \<Rightarrow> request list list" where
  "size_runs [] cur cat = (if cur \<noteq> [] then [cur] else [])"
| "size_runs (r # rs) cur cat =
     (let size_category = get_image_size_category (image_data_len r)
      in if cat = None \<or> cat = Some size_category
         then size_runs rs (cur @ [r]) (Some size_category)
         else (if cur \<noteq> [] then [cur] else []) @ size_runs rs [r] (Some size_category))"

text \<open>\<^verbatim>\<open>_group_similar_requests\<close>; \<^verbatim>\<open>sorted\<close> is stable, as \<^const>\<open>sort_key\<close> is.\<close>

definition group_similar_requests :: "request list \<Rightarrow> request list list" where
  "group_similar_requests rs =
     (let final_groups =
            concat (map (\<lambda>(level, level_requests).
                           size_runs (sort_key image_data_len level_requests) [] None)
                        (level_groups rs))
      in if final_groups \<noteq> [] then final_groups else [rs])"

text \<open>
  \<^verbatim>\<open>_optimize_single_batch\<close>. \<open>b64_raises\<close> says for which strings
  \<^verbatim>\<open>base64.b64decode\<close> raises; the \<^verbatim>\<open>except\<close> branch returns the batch unchanged.
\<close>

definition optimize_single_batch ::
    "(string \<Rightarrow> bool) \<Rightarrow> BatchConfig \<Rightarrow> PrioritizedBatch \<Rightarrow> PrioritizedBatch list" where
  "optimize_single_batch b64_raises c batch =
     (if length (requests batch) \<le> 2 then [batch]
      else if list_ex (\<lambda>r. case req_image_data r of
                              None \<Rightarrow> False
                            | Some d \<Rightarrow> d \<noteq> [] \<and> b64_raises d) (requests batch)
      then [batch]
      else map (\<lambda>(i, sub_requests).
                  \<lparr> requests = sub_requests,
                    priority = priority batch,
                    estimated_processing_time_ms =
                      real (length sub_requests) * performance_target_ms c,
                    batch_id = batch_id batch @ ''_optimized_'' @ str_nat i \<rparr>)
               (enumerate 0 (group_similar_requests (requests batch))))"

text \<open>
  \<^verbatim>\<open>optimize_batch\<close>, with the system load that \<^verbatim>\<open>_analyze_system_state\<close> reports and
  the clock. Nothing inside its \<^verbatim>\<open>try\<close> raises: the helpers catch their own exceptions.
\<close>

definition optimize_batch ::
    "(string \<Rightarrow> bool) \<Rightarrow> real \<Rightarrow> real \<Rightarrow> optimizer \<Rightarrow> request list
      \<Rightarrow> optimizer \<times> request list list" where
  "optimize_batch b64_raises now system_load opt rs =
     (if rs = [] then (opt, [])
      else
        let opt' = (if adaptive_sizing opt then adapt_batch_sizes now (Some system_load) opt
                    else opt);
            prioritized_batches = create_prioritized_batches (current_config opt') rs;
            optimized_batches =
              concat (map (optimize_single_batch b64_raises (current_config opt'))
                        prioritized_batches)
        in (opt', map requests optimized_batches))"

subsection \<open>Order of the returned batches\<close>

text \<open>Every batch of one loop carries the label of the loop.\<close>

lemma priority_batch_loop:
  "map priority (batch_loop label target step xs i)
     = replicate (length (batch_loop label target step xs i)) label"
proof (induction label target step xs i rule: batch_loop.induct)
  case (1 label target step xs i)
  show ?case
  proof (cases "step = 0 \<or> length xs \<le> i")
    case True
    then show ?thesis by (subst (1 2) batch_loop.simps) simp
  next
    case False
    then show ?thesis
      using 1 by (subst (1 2) batch_loop.simps) simp
  qed
qed

lemma priority_priority_batches:
  assumes "priority_batches label target step xs = Inr bs"
  shows "map priority bs = replicate (length bs) label"
  using assms priority_batch_loop [of label target "nat step" xs 0]
  by (auto simp add: priority_batches_def split: if_splits)

text \<open>
  The batches of the three loops, in the order high, normal, low in which the source
  concatenates them, are sorted by \<^verbatim>\<open>priority_order\<close> already, and the stable sort
  returns them as they are.
\<close>

lemma sorted_three_runs:
  "sorted (map priority_order
     (replicate h ''high'' @ replicate n ''normal'' @ replicate l ''low''))"
  by (auto simp add: sorted_append priority_order_def)

lemma create_prioritized_batches_order:
  "\<exists>h n l. map priority (create_prioritized_batches c rs)
             = replicate h ''high'' @ replicate n ''normal'' @ replicate l ''low''"
proof -
  let ?hi = "priority_batches ''high'' (performance_target_ms c) (high_priority_batch_size c)
               (filter (\<lambda>r. get_priority r = ''high'') rs)"
  let ?no = "priority_batches ''normal'' (performance_target_ms c)
               (normal_priority_batch_size c) (filter (\<lambda>r. get_priority r = ''normal'') rs)"
  let ?lo = "priority_batches ''low'' (performance_target_ms c)
               (max (normal_priority_batch_size c) 10)
               (filter (\<lambda>r. get_priority r = ''low'') rs)"
  have fallback: "map priority [fallback_batch c rs]
                    = replicate 0 ''high'' @ replicate 1 ''normal'' @ replicate 0 ''low''"
    by (simp add: fallback_batch_def)
  show ?thesis
  proof (cases "\<exists>hs ns ls. ?hi = Inr hs \<and> ?no = Inr ns \<and> ?lo = Inr ls")
    case False
    then have "create_prioritized_batches c rs = [fallback_batch c rs]"
      by (auto simp add: create_prioritized_batches_def Let_def split: sum.split)
    then show ?thesis using fallback by metis
  next
    case True
    then obtain hs ns ls where hs: "?hi = Inr hs" and ns: "?no = Inr ns" and ls: "?lo = Inr ls"
      by blast
    have p: "map priority (hs @ ns @ ls)
               = replicate (length hs) ''high'' @ replicate (length ns) ''normal''
                   @ replicate (length ls) ''low''"
      using priority_priority_batches [OF hs] priority_priority_batches [OF ns]
        priority_priority_batches [OF ls]
      by simp
    have "map (\<lambda>b. priority_order (priority b)) (hs @ ns @ ls)
            = map priority_order (map priority (hs @ ns @ ls))"
      by (simp add: comp_def)
    then have "sorted (map (\<lambda>b. priority_order (priority b)) (hs @ ns @ ls))"
      unfolding p using sorted_three_runs by simp
    then have "sort_key (\<lambda>b. priority_order (priority b)) (hs @ ns @ ls) = hs @ ns @ ls"
      by (rule sort_key_id_if_sorted)
    then have "create_prioritized_batches c rs = hs @ ns @ ls"
      using hs ns ls by (simp add: create_prioritized_batches_def Let_def)
    then show ?thesis using p by metis
  qed
qed

text \<open>
  Claim C7. With high and normal batch size 2, three requests of priorities high, normal,
  normal give exactly two batches: the high batch with the one high request first, then the
  normal batch with the two normal requests; \<^verbatim>\<open>_optimize_single_batch\<close> returns each of
  them unchanged. For every configuration and every input the batches come back in the
  order high, normal, low: the priorities of the returned batches are a run of
  \<^verbatim>\<open>high\<close>, then a run of \<^verbatim>\<open>normal\<close>, then a run of \<^verbatim>\<open>low\<close> (each run may be
  empty), so no normal or low batch comes before a high batch and no low batch before a
  normal batch.
\<close>

theorem C7_scenario_and_priority_order:
  assumes "high_priority_batch_size c = 2" and "normal_priority_batch_size c = 2"
    and "req_priority r1 = Some ''high''" and "req_priority r2 = Some ''normal''"
    and "req_priority r3 = Some ''normal''"
  shows "create_prioritized_batches c [r1, r2, r3] =
           [\<lparr> requests = [r1], priority = ''high'',
              estimated_processing_time_ms = performance_target_ms c,
              batch_id = ''high_priority_0'' \<rparr>,
            \<lparr> requests = [r2, r3], priority = ''normal'',
              estimated_processing_time_ms = 2 * performance_target_ms c,
              batch_id = ''normal_priority_0'' \<rparr>] \<and>
         concat (map (optimize_single_batch b64_raises c)
                   (create_prioritized_batches c [r1, r2, r3]))
           = create_prioritized_batches c [r1, r2, r3] \<and>
         (\<forall>c' rs. \<exists>h n l. map priority (create_prioritized_batches c' rs)
                     = replicate h ''high'' @ replicate n ''normal'' @ replicate l ''low'')"
proof -
  have created: "create_prioritized_batches c [r1, r2, r3] =
           [\<lparr> requests = [r1], priority = ''high'',
              estimated_processing_time_ms = performance_target_ms c,
              batch_id = ''high_priority_0'' \<rparr>,
            \<lparr> requests = [r2, r3], priority = ''normal'',
              estimated_processing_time_ms = 2 * performance_target_ms c,
              batch_id = ''normal_priority_0'' \<rparr>]"
    using assms
    by (simp add: create_prioritized_batches_def Let_def get_priority_def
        priority_batches_def batch_loop.simps str_nat.simps digit_char_def
        priority_order_def)
  have kept: "concat (map (optimize_single_batch b64_raises c)
                   (create_prioritized_batches c [r1, r2, r3]))
           = create_prioritized_batches c [r1, r2, r3]"
    unfolding created by (simp add: optimize_single_batch_def)
  show ?thesis
    using created kept create_prioritized_batches_order by blast
qed

text \<open>
  The scenario with the default target of 5 ms per request, and the default configuration
  on requests that arrive in the order low, normal, high, low: the batches come back as
  high, normal, low.
\<close>

theorem C7_scenario_witness:
  "create_prioritized_batches
     \<lparr> high_priority_batch_size = 2, normal_priority_batch_size = 2, max_concurrent = 8,
       adaptive_threshold = 0.7, performance_target_ms = 5 \<rparr>
     [\<lparr> req_id = Some ''a'', req_priority = Some ''high'', req_recognition_level = Some ''fast'',
        req_image_data = Some ''c21hbGw='', req_languages = Some [''en-US''] \<rparr>,
      \<lparr> req_id = Some ''b'', req_priority = Some ''normal'',
        req_recognition_level = Some ''accurate'',
        req_image_data = Some ''bWVkaXVt'', req_languages = Some [''en-US''] \<rparr>,
      \<lparr> req_id = Some ''c'', req_priority = Some ''normal'',
        req_recognition_level = Some ''accurate'',
        req_image_data = Some ''bGFyZ2U='', req_languages = Some [''en-US'', ''es-ES''] \<rparr>]
   = [\<lparr> requests =
          [\<lparr> req_id = Some ''a'', req_priority = Some ''high'',
             req_recognition_level = Some ''fast'',
             req_image_data = Some ''c21hbGw='', req_languages = Some [''en-US''] \<rparr>],
        priority = ''high'', estimated_processing_time_ms = 5,
        batch_id = ''high_priority_0'' \<rparr>,
      \<lparr> requests =
          [\<lparr> req_id = Some ''b'', req_priority = Some ''normal'',
             req_recognition_level = Some ''accurate'',
             req_image_data = Some ''bWVkaXVt'', req_languages = Some [''en-US''] \<rparr>,
           \<lparr> req_id = Some ''c'', req_priority = Some ''normal'',
             req_recognition_level = Some ''accurate'',
             req_image_data = Some ''bGFyZ2U='',
             req_languages = Some [''en-US'', ''es-ES''] \<rparr>],
        priority = ''normal'', estimated_processing_time_ms = 10,
        batch_id = ''normal_priority_0'' \<rparr>] \<and>
   map priority (create_prioritized_batches (current_config (init_optimizer 5 True))
     [\<lparr> req_id = Some ''l1'', req_priority = Some ''low'', req_recognition_level = None,
        req_image_data = None, req_languages = None \<rparr>,
      \<lparr> req_id = Some ''n1'', req_priority = None, req_recognition_level = None,
        req_image_data = None, req_languages = None \<rparr>,
      \<lparr> req_id = Some ''h1'', req_priority = Some ''high'', req_recognition_level = None,
        req_image_data = None, req_languages = None \<rparr>,
      \<lparr> req_id = Some ''l2'', req_priority = Some ''low'', req_recognition_level = None,
        req_image_data = None, req_languages = None \<rparr>])
   = [''high'', ''normal'', ''low'']"
proof -
  have order: "map priority (create_prioritized_batches (current_config (init_optimizer 5 True))
     [\<lparr> req_id = Some ''l1'', req_priority = Some ''low'', req_recognition_level = None,
        req_image_data = None, req_languages = None \<rparr>,
      \<lparr> req_id = Some ''n1'', req_priority = None, req_recognition_level = None,
        req_image_data = None, req_languages = None \<rparr>,
      \<lparr> req_id = Some ''h1'', req_priority = Some ''high'', req_recognition_level = None,
        req_image_data = None, req_languages = None \<rparr>,
      \<lparr> req_id = Some ''l2'', req_priority = Some ''low'', req_recognition_level = None,
        req_image_data = None, req_languages = None \<rparr>])
   = [''high'', ''normal'', ''low'']"
    by (simp add: init_optimizer_def create_prioritized_batches_def Let_def get_priority_def
        priority_batches_def batch_loop.simps priority_order_def)
  show ?thesis
    unfolding order
    using C7_scenario_and_priority_order [of
      "\<lparr> high_priority_batch_size = 2, normal_priority_batch_size = 2, max_concurrent = 8,
         adaptive_threshold = 0.7, performance_target_ms = 5 \<rparr>"
      "\<lparr> req_id = Some ''a'', req_priority = Some ''high'',
         req_recognition_level = Some ''fast'',
         req_image_data = Some ''c21hbGw='', req_languages = Some [''en-US''] \<rparr>"
      "\<lparr> req_id = Some ''b'', req_priority = Some ''normal'',
         req_recognition_level = Some ''accurate'',
         req_image_data = Some ''bWVkaXVt'', req_languages = Some [''en-US''] \<rparr>"
      "\<lparr> req_id = Some ''c'', req_priority = Some ''normal'',
         req_recognition_level = Some ''accurate'',
         req_image_data = Some ''bGFyZ2U='', req_languages = Some [''en-US'', ''es-ES''] \<rparr>"]
    by simp
qed

subsection \<open>Requests with a priority outside high, normal, low\<close>

text \<open>
  Claim C6 says that every request of the input is in exactly one returned batch. The three
  filters of \<^verbatim>\<open>_create_prioritized_batches\<close> keep a request only when its priority is one
  of the strings high, normal, low (an absent priority reads as normal), so a request that
  declares any other priority reaches no batch. For the default optimizer and the single
  request with priority \<^verbatim>\<open>urgent\<close>, both \<^verbatim>\<open>_create_prioritized_batches\<close> and
  \<^verbatim>\<open>optimize_batch\<close> return no batch at all, whatever the load and the clock.
\<close>

theorem C6_unknown_priority_dropped:
  "create_prioritized_batches (current_config (init_optimizer 5 True))
     [\<lparr> req_id = Some ''r1'', req_priority = Some ''urgent'', req_recognition_level = None,
        req_image_data = None, req_languages = None \<rparr>] = [] \<and>
   (\<forall>b64_raises now system_load.
      snd (optimize_batch b64_raises now system_load (init_optimizer 5 True)
        [\<lparr> req_id = Some ''r1'', req_priority = Some ''urgent'', req_recognition_level = None,
           req_image_data = None, req_languages = None \<rparr>]) = [])"
  by (simp add: optimize_batch_def init_optimizer_def adapt_batch_sizes_def adapt_config_def
      Let_def create_prioritized_batches_def get_priority_def priority_batches_def
      batch_loop.simps)

section \<open>Resource monitor\<close>

record ResourceAllocation =
  max_concurrent_requests :: int
  batch_size_recommendation :: int
  priority_queue_size :: int
  memory_limit_mb :: int
  throttle_threshold :: real

text \<open>The keys of the configuration dictionary that the constructor reads.\<close>

record monitor_config =
  cfg_max_concurrent :: "int option"
  cfg_initial_batch_size :: "int option"
  cfg_queue_size :: "int option"
  cfg_memory_limit_mb :: "int option"
  cfg_throttle_threshold :: "real option"
  cfg_adaptive_throttling :: "bool option"

text \<open>
  The utilization dictionary that \<^verbatim>\<open>get_current_utilization\<close> returns, as far as
  \<^verbatim>\<open>should_throttle\<close> reads it.
\<close>

record utilization =
  ane_usage :: "real option"
  ane_temperature :: "real option"
  queue_depth :: "real option"
  throughput :: "real option"
  efficiency_score :: "real option"

record monitor =
  current_allocation :: ResourceAllocation
  adaptive_throttling :: bool

definition get_or :: "'a \<Rightarrow> 'a option \<Rightarrow> 'a" where
  "get_or d v = (case v of None \<Rightarrow> d | Some x \<Rightarrow> x)"

text \<open>\<^verbatim>\<open>ANEResourceMonitor.__init__\<close>: the allocation and the throttling switch.\<close>

definition init_monitor :: "monitor_config \<Rightarrow> monitor" where
  "init_monitor config =
     \<lparr> current_allocation =
         \<lparr> max_concurrent_requests = get_or 10 (cfg_max_concurrent config),
           batch_size_recommendation = get_or 5 (cfg_initial_batch_size config),
           priority_queue_size = get_or 50 (cfg_queue_size config),
           memory_limit_mb = get_or 2048 (cfg_memory_limit_mb config),
           throttle_threshold = get_or 0.85 (cfg_throttle_threshold config) \<rparr>,
       adaptive_throttling = get_or True (cfg_adaptive_throttling config) \<rparr>"

definition empty_config :: monitor_config where
  "empty_config =
     \<lparr> cfg_max_concurrent = None, cfg_initial_batch_size = None, cfg_queue_size = None,
       cfg_memory_limit_mb = None, cfg_throttle_threshold = None,
       cfg_adaptive_throttling = None \<rparr>"

text \<open>
  \<^verbatim>\<open>_calculate_ane_utilization\<close> from the sampled \<^verbatim>\<open>process_cpu\<close> (absent when the
  sampling failed): the dictionary it builds has no temperature and queue depth 0.
\<close>

definition calculate_ane_utilization :: "real option \<Rightarrow> utilization" where
  "calculate_ane_utilization process_cpu =
     (let estimated_ane_usage = min 100 (get_or 0 process_cpu * 2);
          estimated_throughput = max 0 (100 - estimated_ane_usage)
      in \<lparr> ane_usage = Some estimated_ane_usage,
           ane_temperature = None,
           queue_depth = Some 0,
           throughput = Some estimated_throughput,
           efficiency_score =
             Some (min 100 (estimated_throughput / max 1 estimated_ane_usage * 10)) \<rparr>)"

text \<open>
  \<^verbatim>\<open>should_throttle\<close>, given the dictionary that the awaited
  \<^verbatim>\<open>get_current_utilization\<close> returned: the three conditions and \<^verbatim>\<open>any\<close>.
\<close>

definition should_throttle :: "monitor \<Rightarrow> utilization \<Rightarrow> bool" where
  "should_throttle m current_utilization =
     (if \<not> adaptive_throttling m then False
      else
        let throttle_conditions =
              [ get_or 0 (ane_usage current_utilization)
                  > throttle_threshold (current_allocation m),
                get_or 0 (ane_temperature current_utilization) > 80,
                get_or 0 (queue_depth current_utilization)
                  > real_of_int (priority_queue_size (current_allocation m)) * 0.8 ]
        in list_ex (\<lambda>b. b) throttle_conditions)"

text \<open>
  Claim C9. With adaptive throttling on, \<^verbatim>\<open>should_throttle\<close> is true exactly when the
  usage exceeds the configured threshold, or the temperature exceeds 80, or the queue depth
  exceeds 80 percent of the queue capacity (a key that the reading lacks counts as 0).
  For the default configuration (threshold 0.85, capacity 50) it is true at usage 0.90
  whatever the temperature and the queue depth, and false at usage 0.5, temperature 70
  and queue depth 5.
\<close>

theorem C9_should_throttle_iff:
  assumes "adaptive_throttling m"
  shows "(should_throttle m u \<longleftrightarrow>
           (get_or 0 (ane_usage u) > throttle_threshold (current_allocation m) \<or>
            get_or 0 (ane_temperature u) > 80 \<or>
            get_or 0 (queue_depth u)
              > real_of_int (priority_queue_size (current_allocation m)) * 0.8)) \<and>
         should_throttle (init_monitor empty_config)
           \<lparr> ane_usage = Some 0.90, ane_temperature = t, queue_depth = q,
             throughput = tp, efficiency_score = e \<rparr> \<and>
         \<not> should_throttle (init_monitor empty_config)
           \<lparr> ane_usage = Some 0.5, ane_temperature = Some 70, queue_depth = Some 5,
             throughput = tp, efficiency_score = e \<rparr>"
  using assms
  by (simp add: should_throttle_def Let_def init_monitor_def empty_config_def get_or_def)

text \<open>
  The default monitor on the reading that \<^verbatim>\<open>_calculate_ane_utilization\<close> builds from a
  process CPU sample of 0.45: usage 0.9, no temperature, queue depth 0.
\<close>

theorem C9_should_throttle_witness:
  "adaptive_throttling (init_monitor empty_config) \<and>
   should_throttle (init_monitor empty_config) (calculate_ane_utilization (Some 0.45)) \<and>
   get_or 0 (ane_usage (calculate_ane_utilization (Some 0.45))) = 0.9"
proof -
  have h: "adaptive_throttling (init_monitor empty_config)"
    by (simp add: init_monitor_def empty_config_def get_or_def)
  show ?thesis
    using h C9_should_throttle_iff [OF h, of "calculate_ane_utilization (Some 0.45)"]
    by (simp add: calculate_ane_utilization_def Let_def init_monitor_def empty_config_def
        get_or_def)
qed

section \<open>Cache predictor\<close>

record CachePrediction =
  cache_key :: string
  probability :: real
  confidence :: real
  predicted_access_time :: real
  reasoning :: string
  data_characteristics :: "(string \<times> string) list"

record prediction_model =
  prediction_threshold :: real
  is_initialized :: bool

text \<open>
  \<^verbatim>\<open>grouped_predictions[prediction.cache_key].append(prediction)\<close> on a
  \<^verbatim>\<open>defaultdict(list)\<close>, kept in insertion order.
\<close>

definition grouped_add ::
    "(string \<times> CachePrediction list) list \<Rightarrow> CachePrediction
      \<Rightarrow> (string \<times> CachePrediction list) list" where
  "grouped_add groups p =
     AList.update (cache_key p) (get_or [] (map_of groups (cache_key p)) @ [p]) groups"

definition grouped_predictions :: "CachePrediction list \<Rightarrow> (string \<times> CachePrediction list) list" where
  "grouped_predictions ps = foldl grouped_add [] ps"

text \<open>
  The body of the loop over the groups. A group of one is passed on as it is. For a larger
  group the weighted probability divides by the sum of the confidences, which raises
  \<^verbatim>\<open>ZeroDivisionError\<close> when that sum is zero.
\<close>

definition combine_group :: "string \<times> CachePrediction list \<Rightarrow> py_exception + CachePrediction" where
  "combine_group g =
     (case g of (key, key_predictions) \<Rightarrow>
        (case key_predictions of
           [] \<Rightarrow> Inl ZeroDivisionError
         | [p] \<Rightarrow> Inr p
         | p # _ \<Rightarrow>
             if sum_list (map confidence key_predictions) = 0 then Inl ZeroDivisionError
             else Inr
               \<lparr> cache_key = key,
                 probability =
                   sum_list (map (\<lambda>q. probability q * confidence q) key_predictions)
                     / sum_list (map confidence key_predictions),
                 confidence =
                   sum_list (map confidence key_predictions) / real (length key_predictions),
                 predicted_access_time = min_list (map predicted_access_time key_predictions),
                 reasoning = ''Ensemble of '' @ str_nat (length key_predictions) @ '' models'',
                 data_characteristics = data_characteristics p \<rparr>))"

text \<open>The loop stops at the first exception.\<close>

fun collect_results :: "('e + 'a) list \<Rightarrow> 'e + 'a list" where
  "collect_results [] = Inr []"
| "collect_results (x # xs) =
     (case x of
        Inl e \<Rightarrow> Inl e
      | Inr v \<Rightarrow> (case collect_results xs of Inl e \<Rightarrow> Inl e | Inr vs \<Rightarrow> Inr (v # vs)))"

text \<open>
  \<^verbatim>\<open>_combine_predictions\<close>: on an exception the \<^verbatim>\<open>except\<close> branch returns the
  predictions as they came in.
\<close>

definition combine_predictions :: "CachePrediction list \<Rightarrow> CachePrediction list" where
  "combine_predictions predictions =
     (case collect_results (map combine_group (grouped_predictions predictions)) of
        Inl e \<Rightarrow> predictions
      | Inr combined_predictions \<Rightarrow> combined_predictions)"

text \<open>
  \<^verbatim>\<open>predict_cache_access\<close>, given what the frequency, temporal and sequence models
  predict (the three models shipped with the source all return the empty list). The sort
  with \<^verbatim>\<open>reverse=True\<close> is stable, as \<^const>\<open>sort_key\<close> on the negated probability is.
\<close>

definition predict_cache_access ::
    "prediction_model \<Rightarrow> CachePrediction list \<Rightarrow> CachePrediction list \<Rightarrow> CachePrediction list
      \<Rightarrow> CachePrediction list" where
  "predict_cache_access m freq_predictions temporal_predictions sequence_predictions =
     (if \<not> is_initialized m then []
      else
        let predictions = freq_predictions @ temporal_predictions @ sequence_predictions;
            combined_predictions = combine_predictions predictions;
            filtered_predictions =
              filter (\<lambda>p. probability p \<ge> prediction_threshold m) combined_predictions
        in take 10 (sort_key (\<lambda>p. - probability p) filtered_predictions))"

text \<open>The predictions of one key, and their confidence-weighted average probability.\<close>

definition key_predictions_of :: "string \<Rightarrow> CachePrediction list \<Rightarrow> CachePrediction list" where
  "key_predictions_of k ps = filter (\<lambda>p. cache_key p = k) ps"

definition weighted_probability :: "CachePrediction list \<Rightarrow> real" where
  "weighted_probability kps =
     sum_list (map (\<lambda>q. probability q * confidence q) kps) / sum_list (map confidence kps)"

subsection \<open>Grouping, merging and ranking\<close>

text \<open>
  The grouping dictionary after the loop: its keys are distinct, and the group of a key is
  the list of the predictions with that key, in their order.
\<close>

definition groups_inv :: "CachePrediction list \<Rightarrow> (string \<times> CachePrediction list) list \<Rightarrow> bool" where
  "groups_inv ps G \<longleftrightarrow>
     distinct (map fst G) \<and>
     (\<forall>k. map_of G k = (if k \<in> cache_key ` set ps then Some (key_predictions_of k ps) else None))"

lemma groups_inv_add:
  assumes "groups_inv ps G"
  shows "groups_inv (ps @ [p]) (grouped_add G p)"
proof -
  have d: "distinct (map fst G)"
    and m: "\<And>k. map_of G k =
              (if k \<in> cache_key ` set ps then Some (key_predictions_of k ps) else None)"
    using assms by (simp_all add: groups_inv_def)
  have fresh: "key_predictions_of (cache_key p) ps = []" if "cache_key p \<notin> cache_key ` set ps"
  proof -
    have "\<forall>x \<in> set ps. cache_key x \<noteq> cache_key p"
      using that by (metis image_eqI)
    then show ?thesis by (simp add: key_predictions_of_def filter_empty_conv)
  qed
  have "distinct (map fst (grouped_add G p))"
    using d by (simp add: grouped_add_def distinct_update)
  moreover have "map_of (grouped_add G p) k =
      (if k \<in> cache_key ` set (ps @ [p]) then Some (key_predictions_of k (ps @ [p])) else None)"
    for k
    using fresh by (simp add: grouped_add_def update_conv' m get_or_def key_predictions_of_def)
  ultimately show ?thesis by (simp add: groups_inv_def)
qed

lemma groups_inv_grouped: "groups_inv ps (grouped_predictions ps)"
proof (induction ps rule: rev_induct)
  case Nil
  then show ?case by (simp add: groups_inv_def grouped_predictions_def)
next
  case (snoc p ps)
  then show ?case
    using groups_inv_add [of ps "grouped_predictions ps" p]
    by (simp add: grouped_predictions_def)
qed

lemma grouped_predictions_entry:
  assumes "(k, g) \<in> set (grouped_predictions ps)"
  shows "g = key_predictions_of k ps \<and> k \<in> cache_key ` set ps"
proof -
  have inv: "groups_inv ps (grouped_predictions ps)" by (rule groups_inv_grouped)
  then have "distinct (map fst (grouped_predictions ps))" by (simp add: groups_inv_def)
  then have "map_of (grouped_predictions ps) k = Some g"
    using assms by simp
  moreover have "map_of (grouped_predictions ps) k =
      (if k \<in> cache_key ` set ps then Some (key_predictions_of k ps) else None)"
    using inv by (simp add: groups_inv_def)
  ultimately show ?thesis
    by (simp split: if_splits)
qed

lemma grouped_predictions_keys:
  "distinct (map fst (grouped_predictions ps))"
  "set (map fst (grouped_predictions ps)) = cache_key ` set ps"
proof -
  have inv: "groups_inv ps (grouped_predictions ps)" by (rule groups_inv_grouped)
  then show "distinct (map fst (grouped_predictions ps))" by (simp add: groups_inv_def)
  have "dom (map_of (grouped_predictions ps)) = cache_key ` set ps"
    using inv by (auto simp: groups_inv_def dom_def split: if_splits)
  then show "set (map fst (grouped_predictions ps)) = cache_key ` set ps"
    by (simp add: dom_map_of_conv_image_fst)
qed

text \<open>What the loop body makes of the group of key k when its confidences do not sum to 0.\<close>

lemma combine_group_ok:
  assumes "k \<in> cache_key ` set ps"
    and "sum_list (map confidence (key_predictions_of k ps)) \<noteq> 0"
  shows "\<exists>e. combine_group (k, key_predictions_of k ps) = Inr e \<and> cache_key e = k \<and>
             probability e = weighted_probability (key_predictions_of k ps)"
proof (cases "key_predictions_of k ps")
  case Nil
  with assms(1) show ?thesis
    by (auto simp: key_predictions_of_def filter_empty_conv)
next
  case (Cons p rest)
  then have pk: "cache_key p = k"
    by (metis (mono_tags, lifting) key_predictions_of_def list.set_intros(1) mem_Collect_eq set_filter)
  show ?thesis
  proof (cases rest)
    case Nil
    with Cons assms(2) pk show ?thesis
      by (simp add: combine_group_def weighted_probability_def)
  next
    case (Cons q rest')
    with \<open>key_predictions_of k ps = p # rest\<close> assms(2) show ?thesis
      by (simp add: combine_group_def weighted_probability_def)
  qed
qed

lemma collect_results_map:
  assumes "\<forall>x \<in> set xs. f x = Inr (g x)"
  shows "collect_results (map f xs) = Inr (map g xs)"
  using assms by (induction xs) simp_all


lemma combine_predictions_per_key:
  assumes "\<forall>k \<in> cache_key ` set ps. sum_list (map confidence (key_predictions_of k ps)) \<noteq> 0"
  shows "distinct (map cache_key (combine_predictions ps))"
    and "set (map cache_key (combine_predictions ps)) = cache_key ` set ps"
    and "\<forall>e \<in> set (combine_predictions ps).
           probability e = weighted_probability (key_predictions_of (cache_key e) ps)"
proof -
  let ?G = "grouped_predictions ps"
  have each: "\<forall>x \<in> set ?G. combine_group x = Inr (projr (combine_group x)) \<and>
                 cache_key (projr (combine_group x)) = fst x \<and>
                 probability (projr (combine_group x)) = weighted_probability (key_predictions_of (fst x) ps)"
  proof
    fix x assume x: "x \<in> set ?G"
    obtain k g where kg: "x = (k, g)" by (cases x)
    with x have g: "g = key_predictions_of k ps" and k: "k \<in> cache_key ` set ps"
      using grouped_predictions_entry [of k g ps] by simp_all
    from combine_group_ok [OF k] assms k
    obtain e where "combine_group (k, key_predictions_of k ps) = Inr e" "cache_key e = k"
      "probability e = weighted_probability (key_predictions_of k ps)" by blast
    with kg g show "combine_group x = Inr (projr (combine_group x)) \<and>
                 cache_key (projr (combine_group x)) = fst x \<and>
                 probability (projr (combine_group x)) = weighted_probability (key_predictions_of (fst x) ps)"
      by simp
  qed
  then have "collect_results (map combine_group ?G) = Inr (map (\<lambda>x. projr (combine_group x)) ?G)"
    by (intro collect_results_map) simp
  then have comb: "combine_predictions ps = map (\<lambda>x. projr (combine_group x)) ?G"
    by (simp add: combine_predictions_def)
  have keys: "map cache_key (combine_predictions ps) = map fst ?G"
    unfolding comb using each by simp
  show "distinct (map cache_key (combine_predictions ps))"
    unfolding keys by (rule grouped_predictions_keys)
  show "set (map cache_key (combine_predictions ps)) = cache_key ` set ps"
    unfolding keys by (rule grouped_predictions_keys)
  show "\<forall>e \<in> set (combine_predictions ps).
           probability e = weighted_probability (key_predictions_of (cache_key e) ps)"
    unfolding comb using each by auto
qed

lemma ranked_sorted:
  "sorted (map (\<lambda>p. - probability p) (take n (sort_key (\<lambda>p. - probability p) xs)))"
proof -
  have "sorted (map (\<lambda>p. - probability p) (sort_key (\<lambda>p. - probability p) xs))"
    by (rule sorted_sort_key)
  then have "sorted (take n (map (\<lambda>p. - probability p) (sort_key (\<lambda>p. - probability p) xs)))"
    by (rule sorted_wrt_take)
  then show ?thesis by (simp add: take_map)
qed

lemma ranked_distinct:
  assumes "distinct (map cache_key xs)"
  shows "distinct (map cache_key (take n (sort_key f (filter P xs))))"
proof -
  have "distinct (map cache_key (filter P xs))"
    using assms by (rule distinct_map_filter)
  moreover have "mset (map cache_key (sort_key f (filter P xs))) = mset (map cache_key (filter P xs))"
    by simp
  ultimately have "distinct (map cache_key (sort_key f (filter P xs)))"
    by (metis mset_eq_imp_distinct_iff)
  then have "distinct (take n (map cache_key (sort_key f (filter P xs))))"
    by (rule distinct_take)
  then show ?thesis by (simp add: take_map)
qed

text \<open>
  Claim C10 (as amended). Let the confidences of every cache key among the predictions of
  the three models sum to a non-zero value. Then \<^verbatim>\<open>_combine_predictions\<close> returns one entry
  per cache key, and the probability of each entry is the confidence-weighted average
  \<open>\<Sum>(p\<^sub>i c\<^sub>i) / \<Sum>c\<^sub>i\<close> over the predictions of its key. \<^verbatim>\<open>predict_cache_access\<close> returns
  the first 10 of these entries with probability at or above the threshold, in descending
  order of probability.
\<close>

theorem C10_merge_filter_rank:
  assumes "is_initialized m"
    and "\<forall>k \<in> cache_key ` set (fp @ tp @ sp).
           sum_list (map confidence (key_predictions_of k (fp @ tp @ sp))) \<noteq> 0"
  shows "distinct (map cache_key (combine_predictions (fp @ tp @ sp))) \<and>
         set (map cache_key (combine_predictions (fp @ tp @ sp))) = cache_key ` set (fp @ tp @ sp) \<and>
         (\<forall>e \<in> set (combine_predictions (fp @ tp @ sp)).
            probability e = weighted_probability (key_predictions_of (cache_key e) (fp @ tp @ sp))) \<and>
         predict_cache_access m fp tp sp =
           take 10 (sort_key (\<lambda>p. - probability p)
             (filter (\<lambda>p. prediction_threshold m \<le> probability p)
                (combine_predictions (fp @ tp @ sp)))) \<and>
         (\<forall>e \<in> set (predict_cache_access m fp tp sp).
            prediction_threshold m \<le> probability e \<and>
            probability e = weighted_probability (key_predictions_of (cache_key e) (fp @ tp @ sp))) \<and>
         distinct (map cache_key (predict_cache_access m fp tp sp)) \<and>
         sorted (map (\<lambda>p. - probability p) (predict_cache_access m fp tp sp)) \<and>
         length (predict_cache_access m fp tp sp) \<le> 10"
proof -
  let ?ps = "fp @ tp @ sp"
  let ?out = "predict_cache_access m fp tp sp"
  note comb = combine_predictions_per_key [OF assms(2)]
  have out: "?out = take 10 (sort_key (\<lambda>p. - probability p)
             (filter (\<lambda>p. prediction_threshold m \<le> probability p) (combine_predictions ?ps)))"
    using assms(1) by (simp add: predict_cache_access_def Let_def)
  have sub: "set ?out \<subseteq> {e \<in> set (combine_predictions ?ps). prediction_threshold m \<le> probability e}"
    unfolding out using set_take_subset [of 10] by fastforce
  have each: "\<forall>e \<in> set ?out. prediction_threshold m \<le> probability e \<and>
            probability e = weighted_probability (key_predictions_of (cache_key e) ?ps)"
    using sub comb(3) by blast
  have d: "distinct (map cache_key ?out)"
    unfolding out using comb(1) by (rule ranked_distinct)
  have s: "sorted (map (\<lambda>p. - probability p) ?out)"
    unfolding out by (rule ranked_sorted)
  have l: "length ?out \<le> 10"
    unfolding out by simp
  show ?thesis
    using comb(1) comb(2) comb(3) out each d s l by blast
qed

text \<open>
  An example: two predictions for key k1 (merged to probability
  \<open>(0.9 \<sqdot> 0.5 + 0.84 \<sqdot> 1) / 1.5 = 0.86\<close>), one for k2 (0.95) and one for k3 (0.5, below
  the threshold 0.8).
\<close>

definition example_model :: prediction_model where
  "example_model = \<lparr> prediction_threshold = 0.8, is_initialized = True \<rparr>"

definition example_frequency :: "CachePrediction list" where
  "example_frequency =
     [\<lparr> cache_key = ''k1'', probability = 0.9, confidence = 0.5,
        predicted_access_time = 12, reasoning = ''frequency'', data_characteristics = [] \<rparr>,
      \<lparr> cache_key = ''k3'', probability = 0.5, confidence = 1,
        predicted_access_time = 30, reasoning = ''frequency'', data_characteristics = [] \<rparr>]"

definition example_temporal :: "CachePrediction list" where
  "example_temporal =
     [\<lparr> cache_key = ''k1'', probability = 0.84, confidence = 1,
        predicted_access_time = 10, reasoning = ''temporal'', data_characteristics = [] \<rparr>]"

definition example_sequence :: "CachePrediction list" where
  "example_sequence =
     [\<lparr> cache_key = ''k2'', probability = 0.95, confidence = 1,
        predicted_access_time = 11, reasoning = ''sequence'', data_characteristics = [] \<rparr>]"

theorem C10_merge_filter_rank_witness:
  "is_initialized example_model \<and>
   predict_cache_access example_model example_frequency example_temporal example_sequence
     = [\<lparr> cache_key = ''k2'', probability = 0.95, confidence = 1,
          predicted_access_time = 11, reasoning = ''sequence'', data_characteristics = [] \<rparr>,
        \<lparr> cache_key = ''k1'', probability = 0.86, confidence = 0.75,
          predicted_access_time = 10, reasoning = ''Ensemble of 2 models'',
          data_characteristics = [] \<rparr>] \<and>
   weighted_probability
     (key_predictions_of ''k1'' (example_frequency @ example_temporal @ example_sequence)) = 0.86 \<and>
   distinct (map cache_key
     (predict_cache_access example_model example_frequency example_temporal example_sequence))"
proof -
  have h1: "is_initialized example_model"
    by (simp add: example_model_def)
  have h2: "\<forall>k \<in> cache_key ` set (example_frequency @ example_temporal @ example_sequence).
           sum_list (map confidence (key_predictions_of k
             (example_frequency @ example_temporal @ example_sequence))) \<noteq> 0"
    by (simp add: example_frequency_def example_temporal_def example_sequence_def
        key_predictions_of_def)
  have ev: "predict_cache_access example_model example_frequency example_temporal
              example_sequence
     = [\<lparr> cache_key = ''k2'', probability = 0.95, confidence = 1,
          predicted_access_time = 11, reasoning = ''sequence'', data_characteristics = [] \<rparr>,
        \<lparr> cache_key = ''k1'', probability = 0.86, confidence = 0.75,
          predicted_access_time = 10, reasoning = ''Ensemble of 2 models'',
          data_characteristics = [] \<rparr>]"
    by (simp add: example_model_def example_frequency_def example_temporal_def
        example_sequence_def predict_cache_access_def combine_predictions_def
        grouped_predictions_def grouped_add_def combine_group_def get_or_def Let_def
        str_nat.simps digit_char_def)
  have w: "weighted_probability
     (key_predictions_of ''k1'' (example_frequency @ example_temporal @ example_sequence)) = 0.86"
    by (simp add: example_frequency_def example_temporal_def example_sequence_def
        key_predictions_of_def weighted_probability_def)
  have d: "distinct (map cache_key
     (predict_cache_access example_model example_frequency example_temporal example_sequence))"
    using C10_merge_filter_rank [OF h1 h2] by (elim conjE)
  show ?thesis
    using h1 ev w d by (intro conjI)
qed

text \<open>
  The claim as stated, for every collection of predictions, fails where the confidences of
  a key sum to zero: the division raises, the \<^verbatim>\<open>except\<close> branch of
  \<^verbatim>\<open>_combine_predictions\<close> returns the predictions unmerged, and the result holds two
  entries for the one key.
\<close>

theorem C10_zero_confidence_counterexample:
  "map cache_key (predict_cache_access \<lparr> prediction_threshold = 0.8, is_initialized = True \<rparr>
     [\<lparr> cache_key = ''k'', probability = 0.9, confidence = 0,
        predicted_access_time = 12, reasoning = ''frequency'', data_characteristics = [] \<rparr>]
     [\<lparr> cache_key = ''k'', probability = 0.9, confidence = 0,
        predicted_access_time = 10, reasoning = ''temporal'', data_characteristics = [] \<rparr>]
     []) = [''k'', ''k'']"
  by (simp add: predict_cache_access_def combine_predictions_def grouped_predictions_def
      grouped_add_def combine_group_def get_or_def Let_def)

section \<open>Shared memory bridge\<close>

text \<open>
  Byte strings are lists of \<^typ>\<open>char\<close> (a \<^typ>\<open>char\<close> is one byte). The two managers keep
  their dictionaries as association lists in insertion order: \<^const>\<open>AList.update\<close>
  overwrites a key in place or appends a new one, \<^const>\<open>AList.delete\<close> is \<^verbatim>\<open>del\<close>,
  \<^const>\<open>length\<close> is \<^verbatim>\<open>len\<close>.
\<close>

type_synonym bytes = string

subsection \<open>Data\<close>

record SharedMemorySegment =
  seg_name :: string
  seg_size :: nat
  seg_request_id :: string
  seg_created_at :: real
  seg_status :: string
  seg_image_shape :: "nat list"
  seg_dtype :: string

text \<open>
  A \<^verbatim>\<open>multiprocessing.shared_memory.SharedMemory\<close> object: its name, its size and the
  bytes written at the start of its buffer.
\<close>

record SharedMemory =
  shm_name :: string
  shm_size :: nat
  shm_written :: bytes

record ProcessingRequest =
  pr_request_id :: string
  pr_segment_name :: string
  pr_image_shape :: "nat list"
  pr_recognition_level :: string
  pr_languages :: "string list"
  pr_custom_words :: "string list"
  pr_minimum_text_height :: real
  pr_timestamp :: real

record ProcessingResult =
  res_request_id :: string
  res_text :: string
  res_confidence :: real
  res_processing_time_ms :: real
  res_ane_used :: bool
  res_bounding_boxes :: "string list option"
  res_language :: "string option"
  res_error :: "string option"
  res_cache_hit :: bool

record BridgeMetrics =
  total_requests :: int
  successful_requests :: int
  failed_requests :: int
  average_latency_ms :: real
  memory_segments_active :: int
  memory_usage_mb :: real
  zero_copy_transfers :: int
  fallback_http_requests :: int
  last_request_time :: "real option"

record SynchronizationManager =
  active_events :: "(string \<times> bool) list"
  event_locks :: "(string \<times> unit) list"

record ImageSegmentManager =
  max_segments :: int
  active_segments :: "(string \<times> SharedMemorySegment) list"
  shared_memory_objects :: "(string \<times> SharedMemory) list"

record SharedMemoryBridge =
  segment_manager :: ImageSegmentManager
  sync_manager :: SynchronizationManager
  metrics :: BridgeMetrics
  active_requests :: "(string \<times> ProcessingRequest) list"
  http_fallback_enabled :: bool

text \<open>
  What one call reads from its surroundings: the clock at each \<^verbatim>\<open>time.time()\<close>, the
  identifier \<^verbatim>\<open>uuid.uuid4()\<close> would give, whether the operating system creates the shared
  memory object (and the message of its error otherwise), for which request ids closing and
  unlinking the shared memory object goes through without an exception, and what
  \<^verbatim>\<open>Event.wait(timeout)\<close> returns on an event that is not set when the wait begins
  (\<^const>\<open>True\<close> when another process sets it within the timeout, \<^const>\<open>False\<close> for a
  time-out). The flag of each event is kept in \<open>active_events\<close>.
\<close>

record environment =
  now_start :: real
  now_sweep :: real
  now_name :: real
  now_created :: real
  now_request :: real
  now_end :: real
  now_metrics :: real
  uuid4 :: string
  shm_create_ok :: bool
  os_error :: string
  shm_release_ok :: "string \<Rightarrow> bool"
  wait_result :: bool

definition has_key :: "'k \<Rightarrow> ('k \<times> 'v) list \<Rightarrow> bool" where
  "has_key k d \<longleftrightarrow> k \<in> fst ` set d"

subsection \<open>Synchronization manager\<close>

definition create_request_event :: "SynchronizationManager \<Rightarrow> string \<Rightarrow> SynchronizationManager" where
  "create_request_event sm request_id =
     sm\<lparr> active_events := AList.update request_id False (active_events sm),
         event_locks := AList.update request_id () (event_locks sm) \<rparr>"

definition signal_processing_ready :: "SynchronizationManager \<Rightarrow> string \<Rightarrow> SynchronizationManager" where
  "signal_processing_ready sm request_id =
     (if has_key request_id (active_events sm)
      then sm\<lparr> active_events := AList.update request_id True (active_events sm) \<rparr>
      else sm)"

text \<open>
  \<^verbatim>\<open>wait_for_completion\<close>: \<^verbatim>\<open>Event.wait(timeout)\<close> on the event of the request.
  On an event that is set the wait returns \<^const>\<open>True\<close> at once; on an event that is
  not set it returns what happens within the timeout, which the environment decides. An
  unknown request id gives \<^const>\<open>False\<close>.
\<close>

definition wait_for_completion :: "environment \<Rightarrow> SynchronizationManager \<Rightarrow> string \<Rightarrow> bool" where
  "wait_for_completion env sm request_id =
     (case map_of (active_events sm) request_id of
        None \<Rightarrow> False
      | Some is_set \<Rightarrow> if is_set then True else wait_result env)"

definition sync_cleanup_request :: "SynchronizationManager \<Rightarrow> string \<Rightarrow> SynchronizationManager" where
  "sync_cleanup_request sm request_id =
     sm\<lparr> active_events := AList.delete request_id (active_events sm),
         event_locks := AList.delete request_id (event_locks sm) \<rparr>"

subsection \<open>Segment manager\<close>

definition calculate_segment_size :: "nat list \<Rightarrow> string \<Rightarrow> nat" where
  "calculate_segment_size image_shape dtype =
     (let bytes_per_pixel = (if dtype = ''uint8'' then 1 else if dtype = ''float32'' then 4 else 1);
          image_size = prod_list image_shape * bytes_per_pixel;
          metadata_size = 4096;
          padding = 1024;
          total_size = image_size + metadata_size + padding
      in ((total_size + 1024 * 1024 - 1) div (1024 * 1024)) * (1024 * 1024))"

text \<open>
  \<^verbatim>\<open>deallocate_segment\<close>. When closing or unlinking the shared memory object raises, the
  \<^verbatim>\<open>except\<close> branch logs a warning and both \<^verbatim>\<open>del\<close> statements are skipped.
\<close>

definition deallocate_segment :: "environment \<Rightarrow> ImageSegmentManager \<Rightarrow> string \<Rightarrow> ImageSegmentManager" where
  "deallocate_segment env mgr request_id =
     (if has_key request_id (shared_memory_objects mgr) \<and> \<not> shm_release_ok env request_id
      then mgr
      else mgr\<lparr> shared_memory_objects := AList.delete request_id (shared_memory_objects mgr),
                active_segments := AList.delete request_id (active_segments mgr) \<rparr>)"

text \<open>\<^verbatim>\<open>_cleanup_expired_segments\<close>: the staleness window is 300 seconds.\<close>

definition expired_requests :: "environment \<Rightarrow> ImageSegmentManager \<Rightarrow> string list" where
  "expired_requests env mgr =
     map fst (filter (\<lambda>(request_id, segment). now_sweep env - seg_created_at segment > 300)
                (active_segments mgr))"

definition cleanup_expired_segments :: "environment \<Rightarrow> ImageSegmentManager \<Rightarrow> ImageSegmentManager" where
  "cleanup_expired_segments env mgr =
     foldl (deallocate_segment env) mgr (expired_requests env mgr)"

text \<open>
  \<^verbatim>\<open>allocate_segment\<close>: the manager after the call, and the exception raised or the pair
  \<^verbatim>\<open>(segment_name, shm)\<close> returned.
\<close>

definition allocate_segment ::
    "environment \<Rightarrow> ImageSegmentManager \<Rightarrow> string \<Rightarrow> nat list \<Rightarrow> string
      \<Rightarrow> ImageSegmentManager \<times> (py_exception + string \<times> SharedMemory)" where
  "allocate_segment env mgr request_id image_shape dtype =
     (let full = (int (length (active_segments mgr)) \<ge> max_segments mgr);
          mgr1 = (if full then cleanup_expired_segments env mgr else mgr)
      in if full \<and> int (length (active_segments mgr1)) \<ge> max_segments mgr1
         then (mgr1, Inl (RuntimeError ''Maximum shared memory segments exceeded''))
         else
           let segment_size = calculate_segment_size image_shape dtype;
               segment_name =
                 ''ane_bridge_'' @ request_id @ ''_'' @ str_nat (nat \<lfloor>now_name env\<rfloor>)
           in if \<not> shm_create_ok env
              then (mgr1, Inl (RuntimeError (''Shared memory allocation failed: '' @ os_error env)))
              else
                let shm = \<lparr> shm_name = segment_name, shm_size = segment_size,
                            shm_written = [] \<rparr>;
                    segment = \<lparr> seg_name = segment_name, seg_size = segment_size,
                                seg_request_id = request_id,
                                seg_created_at = now_created env,
                                seg_status = ''allocated'',
                                seg_image_shape = image_shape, seg_dtype = dtype \<rparr>
                in (mgr1\<lparr> active_segments :=
                             AList.update request_id segment (active_segments mgr1),
                           shared_memory_objects :=
                             AList.update request_id shm (shared_memory_objects mgr1) \<rparr>,
                    Inr (segment_name, shm)))"

subsection \<open>Bridge\<close>

definition estimate_image_shape :: "bytes \<Rightarrow> nat list" where
  "estimate_image_shape image_data =
     (let data_size = length image_data
      in if data_size > 5 * 1024 * 1024 then [2160, 3840, 3]
         else if data_size > 2 * 1024 * 1024 then [1080, 1920, 3]
         else if data_size > 500 * 1024 then [720, 1280, 3]
         else [480, 640, 3])"

text \<open>\<^verbatim>\<open>_update_metrics\<close>.\<close>

definition update_metrics :: "environment \<Rightarrow> real \<Rightarrow> BridgeMetrics \<Rightarrow> BridgeMetrics" where
  "update_metrics env processing_time_ms m =
     m\<lparr> last_request_time := Some (now_metrics env),
        average_latency_ms :=
          (if total_requests m = 1 then processing_time_ms
           else 0.1 * processing_time_ms + (1 - 0.1) * average_latency_ms m) \<rparr>"

text \<open>\<^verbatim>\<open>_read_processing_result\<close>: the fixed result of the source.\<close>

definition read_processing_result :: "string \<Rightarrow> ProcessingResult" where
  "read_processing_result request_id =
     \<lparr> res_request_id = request_id,
       res_text = ''Shared memory OCR processing completed successfully'',
       res_confidence = 0.95,
       res_processing_time_ms = 0,
       res_ane_used = True,
       res_bounding_boxes = None,
       res_language = None,
       res_error = None,
       res_cache_hit = False \<rparr>"

text \<open>\<^verbatim>\<open>_fallback_to_http\<close>: counts the fallback and returns the fixed result of the source.\<close>

definition fallback_result :: "string \<Rightarrow> ProcessingResult" where
  "fallback_result request_id =
     \<lparr> res_request_id = request_id,
       res_text = ''HTTP fallback OCR processing'',
       res_confidence = 0.80,
       res_processing_time_ms = 15,
       res_ane_used = True,
       res_bounding_boxes = None,
       res_language = None,
       res_error = None,
       res_cache_hit = False \<rparr>"

definition fallback_to_http :: "SharedMemoryBridge \<Rightarrow> string \<Rightarrow> SharedMemoryBridge \<times> ProcessingResult" where
  "fallback_to_http b request_id =
     (b\<lparr> metrics := (metrics b)\<lparr> fallback_http_requests :=
                                     fallback_http_requests (metrics b) + 1 \<rparr> \<rparr>,
      fallback_result request_id)"

text \<open>\<^verbatim>\<open>_cleanup_request\<close>.\<close>

definition cleanup_request :: "environment \<Rightarrow> SharedMemoryBridge \<Rightarrow> string \<Rightarrow> SharedMemoryBridge" where
  "cleanup_request env b request_id =
     b\<lparr> active_requests := AList.delete request_id (active_requests b),
        sync_manager := sync_cleanup_request (sync_manager b) request_id,
        segment_manager := deallocate_segment env (segment_manager b) request_id \<rparr>"

text \<open>\<^verbatim>\<open>str(e)\<close>.\<close>

fun str_exception :: "py_exception \<Rightarrow> string" where
  "str_exception ValueError = []"
| "str_exception ZeroDivisionError = ''division by zero''"
| "str_exception (RuntimeError msg) = msg"
| "str_exception (TimeoutError msg) = msg"

text \<open>
  The \<^verbatim>\<open>try\<close> block of \<^verbatim>\<open>process_image_zero_copy\<close>: the bridge when the block is left,
  and the exception that leaves it or the result it returns. The arguments
  \<open>languages\<close> and \<open>custom_words\<close> are \<^const>\<open>None\<close> when not given.
\<close>

definition zero_copy_try ::
    "environment \<Rightarrow> SharedMemoryBridge \<Rightarrow> bytes \<Rightarrow> string \<Rightarrow> string list option
      \<Rightarrow> string list option \<Rightarrow> real \<Rightarrow> string
      \<Rightarrow> SharedMemoryBridge \<times> (py_exception + ProcessingResult)" where
  "zero_copy_try env b image_data recognition_level languages custom_words
      minimum_text_height request_id =
     (let image_shape = estimate_image_shape image_data
      in case allocate_segment env (segment_manager b) request_id image_shape ''uint8'' of
           (mgr1, Inl e) \<Rightarrow> (b\<lparr> segment_manager := mgr1 \<rparr>, Inl e)
         | (mgr1, Inr (segment_name, shm)) \<Rightarrow>
             let raw_size = min (length image_data) (shm_size shm - 4096);
                 mgr2 = mgr1\<lparr> shared_memory_objects :=
                                 AList.update request_id
                                   (shm\<lparr> shm_written := take raw_size image_data \<rparr>)
                                   (shared_memory_objects mgr1) \<rparr>;
                 processing_request =
                   \<lparr> pr_request_id = request_id,
                     pr_segment_name = segment_name,
                     pr_image_shape = image_shape,
                     pr_recognition_level = recognition_level,
                     pr_languages =
                       (case languages of None \<Rightarrow> [''en-US'']
                        | Some ls \<Rightarrow> if ls = [] then [''en-US''] else ls),
                     pr_custom_words = (case custom_words of None \<Rightarrow> [] | Some ws \<Rightarrow> ws),
                     pr_minimum_text_height = minimum_text_height,
                     pr_timestamp = now_request env \<rparr>;
                 b1 = b\<lparr> segment_manager := mgr2,
                         active_requests :=
                           AList.update request_id processing_request (active_requests b) \<rparr>;
                 b2 = b1\<lparr> sync_manager :=
                            signal_processing_ready
                              (create_request_event (sync_manager b1) request_id)
                              request_id \<rparr>;
                 completed = wait_for_completion env (sync_manager b2) request_id
             in if \<not> completed then
                  (if http_fallback_enabled b2 then
                     (case fallback_to_http b2 request_id of (b3, r) \<Rightarrow> (b3, Inr r))
                   else (b2, Inl (TimeoutError (''Processing timeout for request '' @ request_id))))
                else
                  let result = read_processing_result request_id;
                      processing_time_ms = (now_end env - now_start env) * 1000;
                      m = (metrics b2)\<lparr> successful_requests :=
                                            successful_requests (metrics b2) + 1,
                                          zero_copy_transfers :=
                                            zero_copy_transfers (metrics b2) + 1 \<rparr>
                  in (b2\<lparr> metrics := update_metrics env processing_time_ms m \<rparr>,
                      Inr (result\<lparr> res_processing_time_ms := processing_time_ms \<rparr>)))"

text \<open>The \<^verbatim>\<open>except Exception\<close> branch.\<close>

definition zero_copy_except ::
    "environment \<Rightarrow> SharedMemoryBridge \<Rightarrow> string \<Rightarrow> py_exception
      \<Rightarrow> SharedMemoryBridge \<times> ProcessingResult" where
  "zero_copy_except env b request_id e =
     (let processing_time_ms = (now_end env - now_start env) * 1000;
          m = (metrics b)\<lparr> failed_requests := failed_requests (metrics b) + 1 \<rparr>;
          b1 = b\<lparr> metrics := update_metrics env processing_time_ms m \<rparr>
      in if http_fallback_enabled b1 then fallback_to_http b1 request_id
         else (b1, \<lparr> res_request_id = request_id,
                     res_text = [],
                     res_confidence = 0,
                     res_processing_time_ms = processing_time_ms,
                     res_ane_used = False,
                     res_bounding_boxes = None,
                     res_language = None,
                     res_error = Some (str_exception e),
                     res_cache_hit = False \<rparr>))"

text \<open>
  \<^verbatim>\<open>process_image_zero_copy\<close>: the request id (\<^verbatim>\<open>request_id or str(uuid.uuid4())\<close>), the
  count of the request, the \<^verbatim>\<open>try\<close> block with its \<^verbatim>\<open>except\<close> branch, and the
  \<^verbatim>\<open>finally\<close> block. The function is total: every exception of the \<^verbatim>\<open>try\<close> block is
  caught, and neither the \<^verbatim>\<open>except\<close> branch nor the \<^verbatim>\<open>finally\<close> block raises.
\<close>

definition effective_request_id :: "environment \<Rightarrow> string option \<Rightarrow> string" where
  "effective_request_id env request_id =
     (case request_id of None \<Rightarrow> uuid4 env | Some r \<Rightarrow> if r = [] then uuid4 env else r)"

definition process_image_zero_copy ::
    "environment \<Rightarrow> SharedMemoryBridge \<Rightarrow> bytes \<Rightarrow> string \<Rightarrow> string list option
      \<Rightarrow> string list option \<Rightarrow> real \<Rightarrow> string option
      \<Rightarrow> SharedMemoryBridge \<times> ProcessingResult" where
  "process_image_zero_copy env b image_data recognition_level languages custom_words
      minimum_text_height request_id =
     (let rid = effective_request_id env request_id;
          b0 = b\<lparr> metrics := (metrics b)\<lparr> total_requests := total_requests (metrics b) + 1 \<rparr> \<rparr>
      in case zero_copy_try env b0 image_data recognition_level languages custom_words
                minimum_text_height rid of
           (b1, Inr result) \<Rightarrow> (cleanup_request env b1 rid, result)
         | (b1, Inl e) \<Rightarrow>
             (case zero_copy_except env b1 rid e of
                (b2, result) \<Rightarrow> (cleanup_request env b2 rid, result)))"

text \<open>\<^verbatim>\<open>SharedMemoryBridge.__init__\<close> with the given configuration values.\<close>

definition init_bridge :: "int \<Rightarrow> bool \<Rightarrow> SharedMemoryBridge" where
  "init_bridge max_segs fallback =
     \<lparr> segment_manager =
         \<lparr> max_segments = max_segs, active_segments = [], shared_memory_objects = [] \<rparr>,
       sync_manager = \<lparr> active_events = [], event_locks = [] \<rparr>,
       metrics =
         \<lparr> total_requests = 0, successful_requests = 0, failed_requests = 0,
           average_latency_ms = 0, memory_segments_active = 0, memory_usage_mb = 0,
           zero_copy_transfers = 0, fallback_http_requests = 0, last_request_time = None \<rparr>,
       active_requests = [],
       http_fallback_enabled = fallback \<rparr>"

subsection \<open>Capacity and the sweep\<close>

text \<open>
  Releasing the segment of a request goes through: there is no shared memory object under
  that request id, or closing and unlinking it raises nothing.
\<close>

definition release_succeeds :: "environment \<Rightarrow> ImageSegmentManager \<Rightarrow> string \<Rightarrow> bool" where
  "release_succeeds env mgr k \<longleftrightarrow>
     \<not> (has_key k (shared_memory_objects mgr) \<and> \<not> shm_release_ok env k)"

text \<open>A segment is stale at the sweep: older than the window of 300 seconds.\<close>

definition stale :: "environment \<Rightarrow> SharedMemorySegment \<Rightarrow> bool" where
  "stale env segment \<longleftrightarrow> now_sweep env - seg_created_at segment > 300"

text \<open>A dictionary after the sweep has released the segments it could, of the keys \<open>ks\<close>.\<close>

definition swept :: "environment \<Rightarrow> ImageSegmentManager \<Rightarrow> string list \<Rightarrow> (string \<times> 'v) list \<Rightarrow> (string \<times> 'v) list" where
  "swept env mgr ks d = filter (\<lambda>p. \<not> (fst p \<in> set ks \<and> release_succeeds env mgr (fst p))) d"

lemma has_key_swept:
  "has_key k (swept env mgr ks d) \<longleftrightarrow>
     has_key k d \<and> \<not> (k \<in> set ks \<and> release_succeeds env mgr k)"
  by (auto simp: has_key_def swept_def)

lemma swept_snoc_blocked:
  assumes "\<not> release_succeeds env mgr k"
  shows "swept env mgr (ks @ [k]) d = swept env mgr ks d"
  unfolding swept_def using assms by (intro filter_cong) auto

lemma swept_snoc_released:
  assumes "release_succeeds env mgr k"
  shows "swept env mgr (ks @ [k]) d = AList.delete k (swept env mgr ks d)"
proof -
  have "AList.delete k (swept env mgr ks d) =
          filter (\<lambda>p. fst p \<noteq> k \<and> \<not> (fst p \<in> set ks \<and> release_succeeds env mgr (fst p))) d"
    unfolding AList.delete_eq swept_def filter_filter by (rule filter_cong) auto
  also have "\<dots> = swept env mgr (ks @ [k]) d"
    unfolding swept_def using assms by (intro filter_cong) auto
  finally show ?thesis by simp
qed

lemma foldl_deallocate_segment:
  "active_segments (foldl (deallocate_segment env) mgr ks) = swept env mgr ks (active_segments mgr) \<and>
   shared_memory_objects (foldl (deallocate_segment env) mgr ks)
     = swept env mgr ks (shared_memory_objects mgr) \<and>
   max_segments (foldl (deallocate_segment env) mgr ks) = max_segments mgr"
proof (induction ks rule: rev_induct)
  case Nil
  show ?case by (simp add: swept_def)
next
  case (snoc k ks)
  let ?m = "foldl (deallocate_segment env) mgr ks"
  have a: "active_segments ?m = swept env mgr ks (active_segments mgr)"
    and o: "shared_memory_objects ?m = swept env mgr ks (shared_memory_objects mgr)"
    and x: "max_segments ?m = max_segments mgr"
    using snoc by simp_all
  have step: "foldl (deallocate_segment env) mgr (ks @ [k]) = deallocate_segment env ?m k"
    by simp
  show ?case
  proof (cases "has_key k (shared_memory_objects ?m) \<and> \<not> shm_release_ok env k")
    case True
    then have "\<not> release_succeeds env mgr k"
      unfolding o has_key_swept by (simp add: release_succeeds_def)
    then have "swept env mgr (ks @ [k]) (active_segments mgr) = swept env mgr ks (active_segments mgr)"
      and "swept env mgr (ks @ [k]) (shared_memory_objects mgr)
             = swept env mgr ks (shared_memory_objects mgr)"
      by (simp_all add: swept_snoc_blocked)
    moreover have "deallocate_segment env ?m k = ?m"
      using True by (simp add: deallocate_segment_def)
    ultimately show ?thesis
      unfolding step using a o x by simp
  next
    case False
    then have rel: "release_succeeds env mgr k"
      unfolding o has_key_swept by (auto simp: release_succeeds_def)
    have d: "deallocate_segment env ?m k =
               ?m\<lparr> shared_memory_objects := AList.delete k (shared_memory_objects ?m),
                   active_segments := AList.delete k (active_segments ?m) \<rparr>"
      using False by (auto simp: deallocate_segment_def)
    show ?thesis
      unfolding step d using a o x by (simp add: swept_snoc_released [OF rel])
  qed
qed

lemma cleanup_no_stale:
  assumes "\<forall>p \<in> set (active_segments mgr). \<not> stale env (snd p)"
  shows "cleanup_expired_segments env mgr = mgr"
proof -
  have "filter (\<lambda>(request_id, segment). now_sweep env - seg_created_at segment > 300)
                (active_segments mgr) = []"
    using assms by (auto simp: filter_empty_conv stale_def)
  then show ?thesis
    by (simp add: cleanup_expired_segments_def expired_requests_def)
qed

lemma cleanup_removes_stale:
  assumes "(k, seg) \<in> set (active_segments mgr)" and "stale env seg"
    and "release_succeeds env mgr k"
  shows "\<not> has_key k (active_segments (cleanup_expired_segments env mgr))"
    and "length (active_segments (cleanup_expired_segments env mgr)) < length (active_segments mgr)"
proof -
  have k: "k \<in> set (expired_requests env mgr)"
    using assms(1,2) by (force simp: expired_requests_def stale_def)
  have act: "active_segments (cleanup_expired_segments env mgr)
               = swept env mgr (expired_requests env mgr) (active_segments mgr)"
    by (simp add: cleanup_expired_segments_def foldl_deallocate_segment)
  show "\<not> has_key k (active_segments (cleanup_expired_segments env mgr))"
    unfolding act has_key_swept using k assms(3) by simp
  have "(k, seg) \<notin> set (swept env mgr (expired_requests env mgr) (active_segments mgr))"
    using k assms(3) by (simp add: swept_def)
  then show "length (active_segments (cleanup_expired_segments env mgr)) < length (active_segments mgr)"
    unfolding act swept_def using assms(1)
    by (metis (no_types, lifting) filter_True length_filter_le le_neq_implies_less length_filter_less mem_Collect_eq set_filter)
qed


text \<open>
  Claim C2 (as amended). Let the manager hold as many active segments as
  \<^verbatim>\<open>max_segments\<close> allows, and let the request id be new. If no active segment is stale,
  \<^verbatim>\<open>allocate_segment\<close> raises its capacity error and leaves the manager as it was. If an
  active segment is stale and its release goes through, and the operating system creates
  the new shared memory object, then the sweep has removed every such segment and the
  allocation returns the new object, registered under the request id.
\<close>

theorem C2_capacity_bound:
  assumes full: "int (length (active_segments mgr)) = max_segments mgr"
    and new: "\<not> has_key rid (active_segments mgr)"
  shows "((\<forall>p \<in> set (active_segments mgr). \<not> stale env (snd p)) \<longrightarrow>
            allocate_segment env mgr rid shape dtype
              = (mgr, Inl (RuntimeError ''Maximum shared memory segments exceeded''))) \<and>
         ((\<exists>p \<in> set (active_segments mgr). stale env (snd p) \<and> release_succeeds env mgr (fst p)) \<and>
          shm_create_ok env \<longrightarrow>
            (\<exists>mgr' name shm.
               allocate_segment env mgr rid shape dtype = (mgr', Inr (name, shm)) \<and>
               map_of (shared_memory_objects mgr') rid = Some shm \<and>
               has_key rid (active_segments mgr') \<and>
               (\<forall>p \<in> set (active_segments mgr).
                  stale env (snd p) \<and> release_succeeds env mgr (fst p) \<longrightarrow>
                    \<not> has_key (fst p) (active_segments mgr'))))"
proof (intro conjI impI)
  assume none: "\<forall>p \<in> set (active_segments mgr). \<not> stale env (snd p)"
  then have "cleanup_expired_segments env mgr = mgr"
    by (rule cleanup_no_stale)
  then show "allocate_segment env mgr rid shape dtype
              = (mgr, Inl (RuntimeError ''Maximum shared memory segments exceeded''))"
    using full by (simp add: allocate_segment_def Let_def)
next
  assume h: "(\<exists>p \<in> set (active_segments mgr). stale env (snd p) \<and> release_succeeds env mgr (fst p)) \<and>
          shm_create_ok env"
  let ?m = "cleanup_expired_segments env mgr"
  from h obtain k seg where p: "(k, seg) \<in> set (active_segments mgr)" "stale env seg"
      "release_succeeds env mgr k"
    by auto
  have less: "length (active_segments ?m) < length (active_segments mgr)"
    using p by (rule cleanup_removes_stale(2))
  have same_max: "max_segments ?m = max_segments mgr"
    by (simp add: cleanup_expired_segments_def foldl_deallocate_segment)
  have room: "\<not> int (length (active_segments ?m)) \<ge> max_segments ?m"
    using less full same_max by simp
  define segment_name where
    "segment_name = ''ane_bridge_'' @ rid @ ''_'' @ str_nat (nat \<lfloor>now_name env\<rfloor>)"
  define shm where
    "shm = \<lparr> shm_name = segment_name, shm_size = calculate_segment_size shape dtype,
             shm_written = [] \<rparr>"
  define segment where
    "segment = \<lparr> seg_name = segment_name, seg_size = calculate_segment_size shape dtype,
                 seg_request_id = rid, seg_created_at = now_created env,
                 seg_status = ''allocated'', seg_image_shape = shape, seg_dtype = dtype \<rparr>"
  define mgr' where
    "mgr' = ?m\<lparr> active_segments := AList.update rid segment (active_segments ?m),
               shared_memory_objects := AList.update rid shm (shared_memory_objects ?m) \<rparr>"
  have res: "allocate_segment env mgr rid shape dtype = (mgr', Inr (segment_name, shm))"
    using full room h
    by (simp add: allocate_segment_def Let_def mgr'_def shm_def segment_def segment_name_def)
  have obj: "map_of (shared_memory_objects mgr') rid = Some shm"
    by (simp add: mgr'_def update_conv')
  have act: "has_key rid (active_segments mgr')"
    by (simp add: mgr'_def has_key_def dom_update)
  have gone: "\<forall>p \<in> set (active_segments mgr).
                  stale env (snd p) \<and> release_succeeds env mgr (fst p) \<longrightarrow>
                    \<not> has_key (fst p) (active_segments mgr')"
  proof (intro ballI impI)
    fix q assume q: "q \<in> set (active_segments mgr)"
      and sq: "stale env (snd q) \<and> release_succeeds env mgr (fst q)"
    have "(fst q, snd q) \<in> set (active_segments mgr)" using q by simp
    then have "\<not> has_key (fst q) (active_segments ?m)"
      using sq cleanup_removes_stale(1) by blast
    moreover have "fst q \<noteq> rid"
      using q new by (auto simp: has_key_def)
    ultimately show "\<not> has_key (fst q) (active_segments mgr')"
      by (simp add: mgr'_def has_key_def dom_update)
  qed
  show "\<exists>mgr' name shm.
               allocate_segment env mgr rid shape dtype = (mgr', Inr (name, shm)) \<and>
               map_of (shared_memory_objects mgr') rid = Some shm \<and>
               has_key rid (active_segments mgr') \<and>
               (\<forall>p \<in> set (active_segments mgr).
                  stale env (snd p) \<and> release_succeeds env mgr (fst p) \<longrightarrow>
                    \<not> has_key (fst p) (active_segments mgr'))"
    using res obj act gone by blast
qed

text \<open>
  An example: capacity 1, taken by a segment created at time 0; the sweep runs at time 1000.
\<close>

definition example_env :: environment where
  "example_env =
     \<lparr> now_start = 1000, now_sweep = 1000, now_name = 1000, now_created = 1000,
       now_request = 1000, now_end = 1000.25, now_metrics = 1000.25,
       uuid4 = ''generated-id'', shm_create_ok = True, os_error = ''File exists'',
       shm_release_ok = (\<lambda>request_id. True), wait_result = True \<rparr>"

definition example_segment :: SharedMemorySegment where
  "example_segment =
     \<lparr> seg_name = ''ane_bridge_old_0'', seg_size = 1048576, seg_request_id = ''old'',
       seg_created_at = 0, seg_status = ''allocated'', seg_image_shape = [480, 640, 3],
       seg_dtype = ''uint8'' \<rparr>"

definition example_manager :: ImageSegmentManager where
  "example_manager =
     \<lparr> max_segments = 1,
       active_segments = [(''old'', example_segment)],
       shared_memory_objects =
         [(''old'', \<lparr> shm_name = ''ane_bridge_old_0'', shm_size = 1048576, shm_written = [] \<rparr>)] \<rparr>"

theorem C2_capacity_bound_witness:
  "int (length (active_segments example_manager)) = max_segments example_manager \<and>
   \<not> has_key ''new'' (active_segments example_manager) \<and>
   \<not> stale (example_env\<lparr> now_sweep := 100 \<rparr>) example_segment \<and>
   allocate_segment (example_env\<lparr> now_sweep := 100 \<rparr>) example_manager ''new''
       [480, 640, 3] ''uint8''
     = (example_manager, Inl (RuntimeError ''Maximum shared memory segments exceeded'')) \<and>
   stale example_env example_segment \<and>
   release_succeeds example_env example_manager ''old'' \<and>
   shm_create_ok example_env \<and>
   (\<exists>mgr' name shm.
      allocate_segment example_env example_manager ''new'' [480, 640, 3] ''uint8''
        = (mgr', Inr (name, shm)) \<and>
      map_of (shared_memory_objects mgr') ''new'' = Some shm \<and>
      has_key ''new'' (active_segments mgr') \<and>
      \<not> has_key ''old'' (active_segments mgr'))"
proof -
  have full: "int (length (active_segments example_manager)) = max_segments example_manager"
    by (simp add: example_manager_def)
  have new: "\<not> has_key ''new'' (active_segments example_manager)"
    by (simp add: example_manager_def has_key_def)
  have fresh: "\<not> stale (example_env\<lparr> now_sweep := 100 \<rparr>) example_segment"
    by (simp add: stale_def example_env_def example_segment_def)
  have old: "stale example_env example_segment"
    by (simp add: stale_def example_env_def example_segment_def)
  have rel: "release_succeeds example_env example_manager ''old''"
    by (simp add: release_succeeds_def example_env_def)
  have ok: "shm_create_ok example_env"
    by (simp add: example_env_def)
  note thm1 = C2_capacity_bound [OF full new, of "example_env\<lparr> now_sweep := 100 \<rparr>"
      "[480, 640, 3]" "''uint8''"]
  note thm2 = C2_capacity_bound [OF full new, of example_env "[480, 640, 3]" "''uint8''"]
  have none: "\<forall>p \<in> set (active_segments example_manager).
                \<not> stale (example_env\<lparr> now_sweep := 100 \<rparr>) (snd p)"
    using fresh by (simp add: example_manager_def)
  have one: "\<exists>p \<in> set (active_segments example_manager).
                stale example_env (snd p) \<and> release_succeeds example_env example_manager (fst p)"
    using old rel by (simp add: example_manager_def)
  have r1: "allocate_segment (example_env\<lparr> now_sweep := 100 \<rparr>) example_manager ''new''
       [480, 640, 3] ''uint8''
     = (example_manager, Inl (RuntimeError ''Maximum shared memory segments exceeded''))"
    using thm1 none by blast
  from thm2 one ok obtain mgr' name shm where
    r2: "allocate_segment example_env example_manager ''new'' [480, 640, 3] ''uint8''
        = (mgr', Inr (name, shm))"
      "map_of (shared_memory_objects mgr') ''new'' = Some shm"
      "has_key ''new'' (active_segments mgr')"
      "\<forall>p \<in> set (active_segments example_manager).
          stale example_env (snd p) \<and> release_succeeds example_env example_manager (fst p) \<longrightarrow>
            \<not> has_key (fst p) (active_segments mgr')"
    by blast
  from r2(4) old rel have "\<not> has_key ''old'' (active_segments mgr')"
    by (simp add: example_manager_def)
  with r2(1,2,3) have "\<exists>mgr' name shm.
      allocate_segment example_env example_manager ''new'' [480, 640, 3] ''uint8''
        = (mgr', Inr (name, shm)) \<and>
      map_of (shared_memory_objects mgr') ''new'' = Some shm \<and>
      has_key ''new'' (active_segments mgr') \<and>
      \<not> has_key ''old'' (active_segments mgr')"
    by blast
  with full new fresh r1 old rel ok show ?thesis by blast
qed

text \<open>
  The second half of the claim as stated fails where the release of the stale segment
  raises (closing or unlinking its shared memory object): \<^verbatim>\<open>deallocate_segment\<close> logs the
  exception and keeps the entry, the sweep removes nothing, and the allocation fails with
  the capacity error although the stale segment is 1000 seconds old.
\<close>

theorem C2_release_fails_counterexample:
  "int (length (active_segments example_manager)) = max_segments example_manager \<and>
   stale (example_env\<lparr> shm_release_ok := (\<lambda>request_id. False) \<rparr>) example_segment \<and>
   allocate_segment (example_env\<lparr> shm_release_ok := (\<lambda>request_id. False) \<rparr>) example_manager
       ''new'' [480, 640, 3] ''uint8''
     = (example_manager, Inl (RuntimeError ''Maximum shared memory segments exceeded''))"
  by (simp add: allocate_segment_def Let_def cleanup_expired_segments_def expired_requests_def
      deallocate_segment_def has_key_def stale_def example_env_def example_manager_def
      example_segment_def)

subsection \<open>Outcomes of a request\<close>

text \<open>The \<^verbatim>\<open>finally\<close> block leaves the metrics alone.\<close>

lemma metrics_cleanup_request [simp]: "metrics (cleanup_request env b rid) = metrics b"
  by (simp add: cleanup_request_def)

text \<open>
  \<^verbatim>\<open>process_image_zero_copy\<close> creates the event of the request, sets it with
  \<^verbatim>\<open>signal_processing_ready\<close> and then waits on it: the wait finds the event set and
  returns \<^const>\<open>True\<close>, whatever the environment.
\<close>

lemma wait_after_signal:
  "wait_for_completion env
     (signal_processing_ready (create_request_event sm request_id) request_id) request_id"
  by (simp add: wait_for_completion_def signal_processing_ready_def create_request_event_def
      has_key_def dom_update update_conv')

text \<open>
  The \<^verbatim>\<open>try\<close> block has two ways out: the allocation raises, or the request completes
  and is counted as successful, with one call of \<^verbatim>\<open>_update_metrics\<close>.
\<close>

lemma zero_copy_try_allocation_fails:
  assumes "allocate_segment env (segment_manager b) rid (estimate_image_shape image_data)
             ''uint8'' = (mgr1, Inl e)"
  shows "zero_copy_try env b image_data lvl langs words mth rid
           = (b\<lparr> segment_manager := mgr1 \<rparr>, Inl e)"
  using assms by (simp add: zero_copy_try_def Let_def)

lemma zero_copy_try_completes:
  assumes "allocate_segment env (segment_manager b) rid (estimate_image_shape image_data)
             ''uint8'' = (mgr1, Inr (segment_name, shm))"
  shows "\<exists>b1 r. zero_copy_try env b image_data lvl langs words mth rid = (b1, Inr r) \<and>
           metrics b1 = update_metrics env ((now_end env - now_start env) * 1000)
             ((metrics b)\<lparr> successful_requests := successful_requests (metrics b) + 1,
                            zero_copy_transfers := zero_copy_transfers (metrics b) + 1 \<rparr>)"
  using assms by (simp add: zero_copy_try_def Let_def wait_after_signal)

lemma metrics_zero_copy_except:
  "metrics (fst (zero_copy_except env b rid e))
     = (update_metrics env ((now_end env - now_start env) * 1000)
          ((metrics b)\<lparr> failed_requests := failed_requests (metrics b) + 1 \<rparr>))
       \<lparr> fallback_http_requests :=
            (if http_fallback_enabled b then fallback_http_requests (metrics b) + 1
             else fallback_http_requests (metrics b)) \<rparr>"
  by (simp add: zero_copy_except_def Let_def fallback_to_http_def update_metrics_def)

text \<open>
  The metrics after a call: those of a completed request, or those of a failed one (with
  the fallback counted when it is enabled).
\<close>

lemma metrics_process_image_zero_copy:
  "metrics (fst (process_image_zero_copy env b image_data lvl langs words mth request_id))
     = update_metrics env ((now_end env - now_start env) * 1000)
         ((metrics b)\<lparr> total_requests := total_requests (metrics b) + 1,
                        successful_requests := successful_requests (metrics b) + 1,
                        zero_copy_transfers := zero_copy_transfers (metrics b) + 1 \<rparr>) \<or>
   metrics (fst (process_image_zero_copy env b image_data lvl langs words mth request_id))
     = (update_metrics env ((now_end env - now_start env) * 1000)
         ((metrics b)\<lparr> total_requests := total_requests (metrics b) + 1,
                        failed_requests := failed_requests (metrics b) + 1 \<rparr>))
       \<lparr> fallback_http_requests :=
            (if http_fallback_enabled b then fallback_http_requests (metrics b) + 1
             else fallback_http_requests (metrics b)) \<rparr>"
proof -
  let ?rid = "effective_request_id env request_id"
  let ?b0 = "b\<lparr> metrics := (metrics b)\<lparr> total_requests := total_requests (metrics b) + 1 \<rparr> \<rparr>"
  obtain mgr1 out where a: "allocate_segment env (segment_manager ?b0) ?rid
                              (estimate_image_shape image_data) ''uint8'' = (mgr1, out)"
    by (cases "allocate_segment env (segment_manager ?b0) ?rid
                 (estimate_image_shape image_data) ''uint8''")
  show ?thesis
  proof (cases out)
    case (Inl e)
    have t: "zero_copy_try env ?b0 image_data lvl langs words mth ?rid
               = (?b0\<lparr> segment_manager := mgr1 \<rparr>, Inl e)"
      using a Inl by (simp add: zero_copy_try_allocation_fails)
    have "metrics (fst (process_image_zero_copy env b image_data lvl langs words mth request_id))
            = metrics (fst (zero_copy_except env (?b0\<lparr> segment_manager := mgr1 \<rparr>) ?rid e))"
      using t by (simp add: process_image_zero_copy_def Let_def split: prod.split)
    then show ?thesis
      by (simp add: metrics_zero_copy_except)
  next
    case (Inr p)
    obtain segment_name shm where p: "p = (segment_name, shm)" by (cases p)
    obtain b1 r where t: "zero_copy_try env ?b0 image_data lvl langs words mth ?rid = (b1, Inr r)"
      and m: "metrics b1 = update_metrics env ((now_end env - now_start env) * 1000)
             ((metrics ?b0)\<lparr> successful_requests := successful_requests (metrics ?b0) + 1,
                            zero_copy_transfers := zero_copy_transfers (metrics ?b0) + 1 \<rparr>)"
      using zero_copy_try_completes [of env ?b0 ?rid image_data mgr1 segment_name shm
          lvl langs words mth] a Inr p
      by blast
    have "metrics (fst (process_image_zero_copy env b image_data lvl langs words mth request_id))
            = metrics b1"
      using t by (simp add: process_image_zero_copy_def Let_def)
    then show ?thesis
      using m by simp
  qed
qed

text \<open>
  Claim C5. For every call of \<^verbatim>\<open>process_image_zero_copy\<close>, whatever the bridge, the
  arguments and the environment: \<^verbatim>\<open>total_requests\<close> goes up by exactly one; exactly one
  of \<^verbatim>\<open>successful_requests\<close> and \<^verbatim>\<open>failed_requests\<close> goes up by one and the other
  keeps its value; and the smoothed latency is updated once, from its value before the call
  and the processing time of this call (the processing time itself for the first request of
  the bridge, and one step \<open>0.1 * t + 0.9 * average\<close> of the moving average otherwise),
  with the time of the update recorded.
\<close>

theorem C5_metrics_updated_once:
  "total_requests
       (metrics (fst (process_image_zero_copy env b image_data lvl langs words mth request_id)))
     = total_requests (metrics b) + 1 \<and>
   (successful_requests
        (metrics (fst (process_image_zero_copy env b image_data lvl langs words mth request_id)))
      = successful_requests (metrics b) + 1 \<and>
    failed_requests
        (metrics (fst (process_image_zero_copy env b image_data lvl langs words mth request_id)))
      = failed_requests (metrics b)
    \<or>
    successful_requests
        (metrics (fst (process_image_zero_copy env b image_data lvl langs words mth request_id)))
      = successful_requests (metrics b) \<and>
    failed_requests
        (metrics (fst (process_image_zero_copy env b image_data lvl langs words mth request_id)))
      = failed_requests (metrics b) + 1) \<and>
   average_latency_ms
       (metrics (fst (process_image_zero_copy env b image_data lvl langs words mth request_id)))
     = (if total_requests (metrics b) + 1 = 1 then (now_end env - now_start env) * 1000
        else 0.1 * ((now_end env - now_start env) * 1000)
               + (1 - 0.1) * average_latency_ms (metrics b)) \<and>
   last_request_time
       (metrics (fst (process_image_zero_copy env b image_data lvl langs words mth request_id)))
     = Some (now_metrics env)"
  using metrics_process_image_zero_copy [of env b image_data lvl langs words mth request_id]
  by (auto simp add: update_metrics_def)

text \<open>Every path through \<^verbatim>\<open>process_image_zero_copy\<close> ends in the \<^verbatim>\<open>finally\<close> block.\<close>

lemma process_ends_with_cleanup:
  "\<exists>bx r. process_image_zero_copy env b image_data lvl langs words mth request_id
            = (cleanup_request env bx (effective_request_id env request_id), r)"
  unfolding process_image_zero_copy_def Let_def
  by (auto split: prod.split sum.split)

lemma not_has_key_delete: "\<not> has_key k (AList.delete k d)"
  by (simp add: has_key_def delete_notin_dom)

lemma cleanup_request_clears:
  "\<not> has_key rid (active_requests (cleanup_request env bx rid)) \<and>
   \<not> has_key rid (active_events (sync_manager (cleanup_request env bx rid))) \<and>
   \<not> has_key rid (event_locks (sync_manager (cleanup_request env bx rid))) \<and>
   (shm_release_ok env rid \<longrightarrow>
      \<not> has_key rid (active_segments (segment_manager (cleanup_request env bx rid))) \<and>
      \<not> has_key rid (shared_memory_objects (segment_manager (cleanup_request env bx rid))))"
  by (simp add: cleanup_request_def sync_cleanup_request_def deallocate_segment_def
      not_has_key_delete)

text \<open>
  Claim C4 (as amended). After every call of \<^verbatim>\<open>process_image_zero_copy\<close>, whatever its
  outcome, the request id is absent from the active requests of the bridge and from the
  events and the locks of the synchronization manager. It is absent from the active
  segments and the shared memory objects of the segment manager whenever closing and
  unlinking the shared memory object of the request raises nothing.
\<close>

theorem C4_cleanup_on_every_outcome:
  "\<not> has_key (effective_request_id env request_id)
      (active_requests (fst (process_image_zero_copy env b image_data lvl langs words mth request_id))) \<and>
   \<not> has_key (effective_request_id env request_id)
      (active_events (sync_manager (fst (process_image_zero_copy env b image_data lvl langs words mth request_id)))) \<and>
   \<not> has_key (effective_request_id env request_id)
      (event_locks (sync_manager (fst (process_image_zero_copy env b image_data lvl langs words mth request_id)))) \<and>
   (shm_release_ok env (effective_request_id env request_id) \<longrightarrow>
      \<not> has_key (effective_request_id env request_id)
         (active_segments (segment_manager (fst (process_image_zero_copy env b image_data lvl langs words mth request_id)))) \<and>
      \<not> has_key (effective_request_id env request_id)
         (shared_memory_objects (segment_manager (fst (process_image_zero_copy env b image_data lvl langs words mth request_id)))))"
proof -
  obtain bx r where "process_image_zero_copy env b image_data lvl langs words mth request_id
            = (cleanup_request env bx (effective_request_id env request_id), r)"
    using process_ends_with_cleanup by blast
  then show ?thesis
    using cleanup_request_clears [of "effective_request_id env request_id" env bx]
    by simp
qed

text \<open>The definitions that a run on a concrete bridge unfolds.\<close>

lemmas eval_defs = process_image_zero_copy_def zero_copy_try_def zero_copy_except_def
  allocate_segment_def cleanup_request_def deallocate_segment_def sync_cleanup_request_def
  create_request_event_def signal_processing_ready_def wait_for_completion_def
  fallback_to_http_def fallback_result_def read_processing_result_def update_metrics_def
  effective_request_id_def estimate_image_shape_def calculate_segment_size_def
  init_bridge_def example_env_def has_key_def Let_def

text \<open>A completed request on a new bridge, with the example environment.\<close>

theorem C4_cleanup_witness:
  "shm_release_ok example_env (effective_request_id example_env (Some ''r1'')) \<and>
   \<not> has_key ''r1''
      (active_segments (segment_manager (fst (process_image_zero_copy example_env
         (init_bridge 20 True) ''abc'' ''accurate'' None None 0.03125 (Some ''r1''))))) \<and>
   \<not> has_key ''r1''
      (shared_memory_objects (segment_manager (fst (process_image_zero_copy example_env
         (init_bridge 20 True) ''abc'' ''accurate'' None None 0.03125 (Some ''r1'')))))"
proof -
  have h: "shm_release_ok example_env (effective_request_id example_env (Some ''r1''))"
    by (simp add: example_env_def)
  have e: "effective_request_id example_env (Some ''r1'') = ''r1''"
    by (simp add: effective_request_id_def)
  show ?thesis
    using h C4_cleanup_on_every_outcome [of example_env "Some ''r1''" "init_bridge 20 True"
        "''abc''" "''accurate''" None None "0.03125"]
    unfolding e by blast
qed

text \<open>
  The claim as stated fails where closing or unlinking the shared memory object raises:
  \<^verbatim>\<open>deallocate_segment\<close> logs the exception and skips both \<^verbatim>\<open>del\<close> statements, so the
  request id stays in the active segments and in the shared memory objects.
\<close>

theorem C4_release_fails_counterexample:
  "has_key ''r1''
      (active_segments (segment_manager (fst (process_image_zero_copy
         (example_env\<lparr> shm_release_ok := (\<lambda>request_id. False) \<rparr>)
         (init_bridge 20 True) ''abc'' ''accurate'' None None 0.03125 (Some ''r1''))))) \<and>
   has_key ''r1''
      (shared_memory_objects (segment_manager (fst (process_image_zero_copy
         (example_env\<lparr> shm_release_ok := (\<lambda>request_id. False) \<rparr>)
         (init_bridge 20 True) ''abc'' ''accurate'' None None 0.03125 (Some ''r1'')))))"
  by (simp add: eval_defs)

text \<open>
  The first request of a new bridge, once completed and once with the operating system
  refusing the shared memory object: a quarter of a second passes in both.
\<close>

theorem C5_metrics_updated_once_witness:
  "total_requests (metrics (fst (process_image_zero_copy example_env
      (init_bridge 20 True) ''abc'' ''accurate'' None None 0.03125 (Some ''r1'')))) = 1 \<and>
   successful_requests (metrics (fst (process_image_zero_copy example_env
      (init_bridge 20 True) ''abc'' ''accurate'' None None 0.03125 (Some ''r1'')))) = 1 \<and>
   failed_requests (metrics (fst (process_image_zero_copy example_env
      (init_bridge 20 True) ''abc'' ''accurate'' None None 0.03125 (Some ''r1'')))) = 0 \<and>
   average_latency_ms (metrics (fst (process_image_zero_copy example_env
      (init_bridge 20 True) ''abc'' ''accurate'' None None 0.03125 (Some ''r1'')))) = 250 \<and>
   total_requests (metrics (fst (process_image_zero_copy
      (example_env\<lparr> shm_create_ok := False \<rparr>)
      (init_bridge 20 True) ''abc'' ''accurate'' None None 0.03125 (Some ''r2'')))) = 1 \<and>
   successful_requests (metrics (fst (process_image_zero_copy
      (example_env\<lparr> shm_create_ok := False \<rparr>)
      (init_bridge 20 True) ''abc'' ''accurate'' None None 0.03125 (Some ''r2'')))) = 0 \<and>
   failed_requests (metrics (fst (process_image_zero_copy
      (example_env\<lparr> shm_create_ok := False \<rparr>)
      (init_bridge 20 True) ''abc'' ''accurate'' None None 0.03125 (Some ''r2'')))) = 1 \<and>
   average_latency_ms (metrics (fst (process_image_zero_copy
      (example_env\<lparr> shm_create_ok := False \<rparr>)
      (init_bridge 20 True) ''abc'' ''accurate'' None None 0.03125 (Some ''r2'')))) = 250"
proof -
  have m: "metrics (init_bridge 20 True) =
         \<lparr> total_requests = 0, successful_requests = 0, failed_requests = 0,
           average_latency_ms = 0, memory_segments_active = 0, memory_usage_mb = 0,
           zero_copy_transfers = 0, fallback_http_requests = 0, last_request_time = None \<rparr>"
    by (simp add: init_bridge_def)
  have t: "(now_end example_env - now_start example_env) * 1000 = 250"
    "(now_end (example_env\<lparr> shm_create_ok := False \<rparr>)
        - now_start (example_env\<lparr> shm_create_ok := False \<rparr>)) * 1000 = 250"
    by (simp_all add: example_env_def)
  have completed: "successful_requests (metrics (fst (process_image_zero_copy example_env
      (init_bridge 20 True) ''abc'' ''accurate'' None None 0.03125 (Some ''r1'')))) = 1"
    by (simp add: eval_defs)
  have failed: "failed_requests (metrics (fst (process_image_zero_copy
      (example_env\<lparr> shm_create_ok := False \<rparr>)
      (init_bridge 20 True) ''abc'' ''accurate'' None None 0.03125 (Some ''r2'')))) = 1"
    by (simp add: eval_defs)
  show ?thesis
    using completed failed
      C5_metrics_updated_once [of example_env "init_bridge 20 True" "''abc''" "''accurate''"
        None None "0.03125" "Some ''r1''"]
      C5_metrics_updated_once [of "example_env\<lparr> shm_create_ok := False \<rparr>"
        "init_bridge 20 True" "''abc''" "''accurate''" None None "0.03125" "Some ''r2''"]
    unfolding m t by simp
qed

section \<open>Memory-mapped segment format\<close>

unbundle bit_operations_syntax

subsection \<open>SHA-256\<close>

text \<open>
  \<^verbatim>\<open>hashlib.sha256(data).hexdigest()\<close>, after FIPS 180-4: the padding, the message
  schedule, the 64 rounds of the compression function and the hexadecimal rendering of the
  eight state words.
\<close>

type_synonym u32 = "32 word"

definition rotr :: "nat \<Rightarrow> u32 \<Rightarrow> u32" where
  "rotr n x = (drop_bit n x) OR (push_bit (32 - n) x)"

definition big_sigma0 :: "u32 \<Rightarrow> u32" where
  "big_sigma0 x = rotr 2 x XOR rotr 13 x XOR rotr 22 x"

definition big_sigma1 :: "u32 \<Rightarrow> u32" where
  "big_sigma1 x = rotr 6 x XOR rotr 11 x XOR rotr 25 x"

definition small_sigma0 :: "u32 \<Rightarrow> u32" where
  "small_sigma0 x = rotr 7 x XOR rotr 18 x XOR drop_bit 3 x"

definition small_sigma1 :: "u32 \<Rightarrow> u32" where
  "small_sigma1 x = rotr 17 x XOR rotr 19 x XOR drop_bit 10 x"

definition ch :: "u32 \<Rightarrow> u32 \<Rightarrow> u32 \<Rightarrow> u32" where
  "ch x y z = (x AND y) XOR (NOT x AND z)"

definition maj :: "u32 \<Rightarrow> u32 \<Rightarrow> u32 \<Rightarrow> u32" where
  "maj x y z = (x AND y) XOR (x AND z) XOR (y AND z)"

definition sha256_k :: "u32 list" where
  "sha256_k =
     [0x428a2f98, 0x71374491, 0xb5c0fbcf, 0xe9b5dba5] @
     [0x3956c25b, 0x59f111f1, 0x923f82a4, 0xab1c5ed5] @
     [0xd807aa98, 0x12835b01, 0x243185be, 0x550c7dc3] @
     [0x72be5d74, 0x80deb1fe, 0x9bdc06a7, 0xc19bf174] @
     [0xe49b69c1, 0xefbe4786, 0x0fc19dc6, 0x240ca1cc] @
     [0x2de92c6f, 0x4a7484aa, 0x5cb0a9dc, 0x76f988da] @
     [0x983e5152, 0xa831c66d, 0xb00327c8, 0xbf597fc7] @
     [0xc6e00bf3, 0xd5a79147, 0x06ca6351, 0x14292967] @
     [0x27b70a85, 0x2e1b2138, 0x4d2c6dfc, 0x53380d13] @
     [0x650a7354, 0x766a0abb, 0x81c2c92e, 0x92722c85] @
     [0xa2bfe8a1, 0xa81a664b, 0xc24b8b70, 0xc76c51a3] @
     [0xd192e819, 0xd6990624, 0xf40e3585, 0x106aa070] @
     [0x19a4c116, 0x1e376c08, 0x2748774c, 0x34b0bcb5] @
     [0x391c0cb3, 0x4ed8aa4a, 0x5b9cca4f, 0x682e6ff3] @
     [0x748f82ee, 0x78a5636f, 0x84c87814, 0x8cc70208] @
     [0x90befffa, 0xa4506ceb, 0xbef9a3f7, 0xc67178f2]"

type_synonym sha256_state = "u32 \<times> u32 \<times> u32 \<times> u32 \<times> u32 \<times> u32 \<times> u32 \<times> u32"

definition sha256_init :: sha256_state where
  "sha256_init =
     (0x6a09e667, 0xbb67ae85, 0x3c6ef372, 0xa54ff53a,
      0x510e527f, 0x9b05688c, 0x1f83d9ab, 0x5be0cd19)"

text \<open>The message with the bit 1, the zero bytes and the 64-bit length in bits appended.\<close>

definition be_bytes :: "nat \<Rightarrow> nat \<Rightarrow> bytes" where
  "be_bytes n v = map (\<lambda>i. char_of (v div 256 ^ (n - 1 - i))) [0..<n]"

definition sha256_pad :: "bytes \<Rightarrow> bytes" where
  "sha256_pad msg =
     msg @ [char_of (128 :: nat)]
         @ replicate ((119 - length msg mod 64) mod 64) (char_of (0 :: nat))
         @ be_bytes 8 (8 * length msg)"

definition be_word :: "bytes \<Rightarrow> u32" where
  "be_word bs = foldl (\<lambda>w c. push_bit 8 w + of_nat (of_char c)) 0 bs"

fun block_words :: "nat \<Rightarrow> bytes \<Rightarrow> u32 list" where
  "block_words 0 bs = []"
| "block_words (Suc n) bs = be_word (take 4 bs) # block_words n (drop 4 bs)"

text \<open>The message schedule: \<open>n\<close> more words after the ones in \<open>ws\<close>.\<close>

fun schedule :: "nat \<Rightarrow> u32 list \<Rightarrow> u32 list" where
  "schedule 0 ws = ws"
| "schedule (Suc n) ws =
     schedule n
       (ws @ [small_sigma1 (ws ! (length ws - 2)) + ws ! (length ws - 7)
               + small_sigma0 (ws ! (length ws - 15)) + ws ! (length ws - 16)])"

fun sha256_round :: "sha256_state \<Rightarrow> u32 \<times> u32 \<Rightarrow> sha256_state" where
  "sha256_round (a, b, c, d, e, f, g, h) (k, w) =
     (let t1 = h + big_sigma1 e + ch e f g + k + w;
          t2 = big_sigma0 a + maj a b c
      in (t1 + t2, a, b, c, d + t1, e, f, g))"

fun add_state :: "sha256_state \<Rightarrow> sha256_state \<Rightarrow> sha256_state" where
  "add_state (a, b, c, d, e, f, g, h) (a', b', c', d', e', f', g', h') =
     (a + a', b + b', c + c', d + d', e + e', f + f', g + g', h + h')"

definition sha256_compress :: "sha256_state \<Rightarrow> bytes \<Rightarrow> sha256_state" where
  "sha256_compress st block =
     add_state st (foldl sha256_round st (zip sha256_k (schedule 48 (block_words 16 block))))"

fun sha256_blocks :: "nat \<Rightarrow> sha256_state \<Rightarrow> bytes \<Rightarrow> sha256_state" where
  "sha256_blocks 0 st bs = st"
| "sha256_blocks (Suc n) st bs = sha256_blocks n (sha256_compress st (take 64 bs)) (drop 64 bs)"

definition hex_digit :: "nat \<Rightarrow> char" where
  "hex_digit d = ''0123456789abcdef'' ! d"

definition hex_word :: "u32 \<Rightarrow> string" where
  "hex_word w = map (\<lambda>i. hex_digit (unat (drop_bit (4 * (7 - i)) w AND 15))) [0..<8]"

fun hex_state :: "sha256_state \<Rightarrow> string" where
  "hex_state (a, b, c, d, e, f, g, h) =
     hex_word a @ hex_word b @ hex_word c @ hex_word d
       @ hex_word e @ hex_word f @ hex_word g @ hex_word h"

definition sha256_hexdigest :: "bytes \<Rightarrow> string" where
  "sha256_hexdigest msg =
     (let padded = sha256_pad msg
      in hex_state (sha256_blocks (length padded div 64) sha256_init padded))"

subsection \<open>The checksum\<close>

text \<open>\<^verbatim>\<open>hashlib.sha256(image_data).hexdigest()[:16]\<close>.\<close>

definition is_hex_digit :: "char \<Rightarrow> bool" where
  "is_hex_digit c \<longleftrightarrow> c \<in> set ''0123456789abcdef''"

definition content_checksum :: "bytes \<Rightarrow> string" where
  "content_checksum image_data = take 16 (sha256_hexdigest image_data)"

lemma hex_digit_is_hex: "d < 16 \<Longrightarrow> is_hex_digit (hex_digit d)"
  unfolding hex_digit_def is_hex_digit_def by (rule nth_mem) simp

lemma and_15_less: "unat ((w :: u32) AND 15) < 16"
proof -
  have "unat (w AND 15) \<le> unat (15 :: u32)"
    by (rule word_and_le1 [THEN word_le_nat_alt [THEN iffD1]])
  then show ?thesis by simp
qed

lemma hex_word_length: "length (hex_word w) = 8"
  by (simp add: hex_word_def)

lemma hex_word_digits: "list_all is_hex_digit (hex_word w)"
  by (simp add: hex_word_def list_all_iff hex_digit_is_hex and_15_less)

lemma hex_state_length: "length (hex_state st) = 64"
  by (cases st rule: hex_state.cases) (simp add: hex_word_length)

lemma hex_state_digits: "list_all is_hex_digit (hex_state st)"
  by (cases st rule: hex_state.cases) (simp add: hex_word_digits)

lemma sha256_hexdigest_length: "length (sha256_hexdigest msg) = 64"
  by (simp add: sha256_hexdigest_def Let_def hex_state_length)

lemma sha256_hexdigest_digits: "list_all is_hex_digit (sha256_hexdigest msg)"
  by (simp add: sha256_hexdigest_def Let_def hex_state_digits)

lemma content_checksum_length: "length (content_checksum image_data) = 16"
  by (simp add: content_checksum_def sha256_hexdigest_length)

lemma content_checksum_digits: "list_all is_hex_digit (content_checksum image_data)"
  using sha256_hexdigest_digits [of image_data]
  by (auto simp: content_checksum_def list_all_iff dest: in_set_takeD)

subsection \<open>JSON text of the header\<close>

text \<open>
  \<^verbatim>\<open>json.dumps\<close> of a string: between double quotes, with the quote, the backslash and
  every character outside the printable ASCII range escaped.
\<close>

definition dquote :: char where
  "dquote = CHR 0x22"

definition backslash :: char where
  "backslash = CHR 0x5C"

definition escape_char :: "char \<Rightarrow> string" where
  "escape_char c =
     (if c = dquote then [backslash, dquote]
      else if c = backslash then [backslash, backslash]
      else if c = CHR 0x0A then [backslash, CHR ''n'']
      else if c = CHR 0x0D then [backslash, CHR ''r'']
      else if c = CHR 0x09 then [backslash, CHR ''t'']
      else if c = CHR 0x08 then [backslash, CHR ''b'']
      else if c = CHR 0x0C then [backslash, CHR ''f'']
      else if 32 \<le> (of_char c :: nat) \<and> (of_char c :: nat) \<le> 126 then [c]
      else [backslash, CHR ''u'', CHR ''0'', CHR ''0'',
            hex_digit (of_char c div 16), hex_digit (of_char c mod 16)])"

definition json_string :: "string \<Rightarrow> string" where
  "json_string s = dquote # concat (map escape_char s) @ [dquote]"

text \<open>The characters that \<^verbatim>\<open>json.dumps\<close> writes as they are.\<close>

definition plain_char :: "char \<Rightarrow> bool" where
  "plain_char c \<longleftrightarrow>
     32 \<le> (of_char c :: nat) \<and> (of_char c :: nat) \<le> 126 \<and> c \<noteq> dquote \<and> c \<noteq> backslash"

definition plain :: "string \<Rightarrow> bool" where
  "plain s \<longleftrightarrow> list_all plain_char s"

text \<open>
  Reading a string of plain characters up to its closing quote, and a number written in
  digits: the value and the rest of the text.
\<close>

fun scan_string :: "string \<Rightarrow> (string \<times> string) option" where
  "scan_string [] = None"
| "scan_string (c # cs) =
     (if c = dquote then Some ([], cs)
      else if \<not> plain_char c then None
      else (case scan_string cs of None \<Rightarrow> None | Some (s, r) \<Rightarrow> Some (c # s, r)))"

definition parse_json_string :: "string \<Rightarrow> (string \<times> string) option" where
  "parse_json_string txt =
     (case txt of [] \<Rightarrow> None | c # cs \<Rightarrow> if c = dquote then scan_string cs else None)"

definition is_digit :: "char \<Rightarrow> bool" where
  "is_digit c \<longleftrightarrow> c \<in> set ''0123456789''"

definition digit_value :: "char \<Rightarrow> nat" where
  "digit_value c = of_char c - 48"

definition nat_of_digits :: "string \<Rightarrow> nat" where
  "nat_of_digits ds = foldl (\<lambda>n c. 10 * n + digit_value c) 0 ds"

definition parse_json_nat :: "string \<Rightarrow> (nat \<times> string) option" where
  "parse_json_nat txt =
     (let ds = takeWhile is_digit txt; rest = dropWhile is_digit txt
      in if ds = [] \<or> (length ds > 1 \<and> hd ds = CHR ''0'') then None
         else if rest \<noteq> [] \<and> hd rest \<in> set ''.eE'' then None
         else Some (nat_of_digits ds, rest))"

definition strip_prefix :: "string \<Rightarrow> string \<Rightarrow> string option" where
  "strip_prefix p txt = (if take (length p) txt = p then Some (drop (length p) txt) else None)"

text \<open>
  The dictionary \<^verbatim>\<open>header_data\<close> with its four keys. The metadata dictionary is kept as
  the text that \<^verbatim>\<open>json.dumps\<close> writes for it.
\<close>

record header_data =
  hd_timestamp :: string
  hd_size :: nat
  hd_checksum :: string
  hd_metadata :: string

text \<open>
  The fixed pieces of the text that \<^verbatim>\<open>json.dumps\<close> writes for the header dictionary,
  with its separators \<^verbatim>\<open>", "\<close> and \<^verbatim>\<open>": "\<close>.
\<close>

definition key_text :: "string \<Rightarrow> string" where
  "key_text k = json_string k @ '': ''"

definition timestamp_text :: string where
  "timestamp_text = ''{'' @ key_text ''timestamp''"

definition size_text :: string where
  "size_text = '', '' @ key_text ''size''"

definition checksum_text :: string where
  "checksum_text = '', '' @ key_text ''checksum''"

definition metadata_text :: string where
  "metadata_text = '', '' @ key_text ''metadata''"

definition json_dumps :: "header_data \<Rightarrow> string" where
  "json_dumps h =
     timestamp_text @ json_string (hd_timestamp h)
       @ size_text @ str_nat (hd_size h)
       @ checksum_text @ json_string (hd_checksum h)
       @ metadata_text @ hd_metadata h @ ''}''"

text \<open>
  \<^verbatim>\<open>json.loads\<close> on the text of a header, followed by the look-up of the keys
  \<^verbatim>\<open>size\<close>, \<^verbatim>\<open>checksum\<close> and \<^verbatim>\<open>metadata\<close>: \<^const>\<open>None\<close> when an exception is
  raised. The function reads the texts that \<^const>\<open>json_dumps\<close> writes for plain time
  stamps and checksums, and gives \<^const>\<open>None\<close> for every other text; \<^verbatim>\<open>json.loads\<close>
  reads more (escapes, white space, other orders of the keys), and no statement below
  reads such a text.
\<close>

definition json_loads :: "string \<Rightarrow> header_data option" where
  "json_loads txt =
     (case strip_prefix timestamp_text txt of
        None \<Rightarrow> None
      | Some r1 \<Rightarrow>
     (case parse_json_string r1 of
        None \<Rightarrow> None
      | Some (ts, r2) \<Rightarrow>
     (case strip_prefix size_text r2 of
        None \<Rightarrow> None
      | Some r3 \<Rightarrow>
     (case parse_json_nat r3 of
        None \<Rightarrow> None
      | Some (n, r4) \<Rightarrow>
     (case strip_prefix checksum_text r4 of
        None \<Rightarrow> None
      | Some r5 \<Rightarrow>
     (case parse_json_string r5 of
        None \<Rightarrow> None
      | Some (cs, r6) \<Rightarrow>
     (case strip_prefix metadata_text r6 of
        None \<Rightarrow> None
      | Some r7 \<Rightarrow>
          if r7 \<noteq> [] \<and> last r7 = CHR ''}''
          then Some \<lparr> hd_timestamp = ts, hd_size = n, hd_checksum = cs,
                      hd_metadata = butlast r7 \<rparr>
          else None)))))))"

lemma strip_prefix_append [simp]: "strip_prefix p (p @ r) = Some r"
  by (simp add: strip_prefix_def)

lemma escape_plain_char: "plain_char c \<Longrightarrow> escape_char c = [c]"
  by (auto simp: plain_char_def escape_char_def)

lemma escape_plain: "plain s \<Longrightarrow> concat (map escape_char s) = s"
  by (induction s) (simp_all add: plain_def escape_plain_char)

lemma json_string_plain: "plain s \<Longrightarrow> json_string s = dquote # s @ [dquote]"
  by (simp add: json_string_def escape_plain)

lemma scan_string_plain: "plain s \<Longrightarrow> scan_string (s @ dquote # r) = Some (s, r)"
  by (induction s) (auto simp: plain_def plain_char_def)

lemma parse_json_string_plain:
  "plain s \<Longrightarrow> parse_json_string (json_string s @ r) = Some (s, r)"
  by (simp add: json_string_plain parse_json_string_def scan_string_plain)

lemma hex_digit_plain: "is_hex_digit c \<Longrightarrow> plain_char c"
  by (auto simp: is_hex_digit_def plain_char_def dquote_def backslash_def)

lemma hex_plain: "list_all is_hex_digit s \<Longrightarrow> plain s"
  by (auto simp: plain_def list_all_iff hex_digit_plain)

lemma digit_cases:
  assumes "d < (10::nat)"
  shows "d = 0 \<or> d = 1 \<or> d = 2 \<or> d = 3 \<or> d = 4 \<or> d = 5 \<or> d = 6 \<or> d = 7 \<or> d = 8 \<or> d = 9"
  using assms by arith

lemma digit_char_props:
  assumes "d < 10"
  shows "is_digit (digit_char d)" and "digit_value (digit_char d) = d"
    and "digit_char d = CHR ''0'' \<longleftrightarrow> d = 0"
  using digit_cases [OF assms]
  by (auto simp: digit_char_def is_digit_def digit_value_def)

lemma str_nat_digits: "list_all is_digit (str_nat n)"
proof (induction n rule: str_nat.induct)
  case (1 n)
  show ?case
  proof (cases "n < 10")
    case True
    then show ?thesis
      by (subst str_nat.simps) (simp add: digit_char_props)
  next
    case False
    then show ?thesis
      using 1 by (subst str_nat.simps) (simp add: digit_char_props)
  qed
qed

lemma str_nat_nonempty: "str_nat n \<noteq> []"
  by (subst str_nat.simps) simp

lemma nat_of_digits_snoc: "nat_of_digits (ds @ [c]) = 10 * nat_of_digits ds + digit_value c"
  by (simp add: nat_of_digits_def)

lemma nat_of_digits_str_nat: "nat_of_digits (str_nat n) = n"
proof (induction n rule: str_nat.induct)
  case (1 n)
  show ?case
  proof (cases "n < 10")
    case True
    then show ?thesis
      by (subst str_nat.simps) (simp add: nat_of_digits_def digit_char_props)
  next
    case False
    then have "nat_of_digits (str_nat (n div 10)) = n div 10"
      using 1 by simp
    then show ?thesis
      using False
      by (subst str_nat.simps) (simp add: nat_of_digits_snoc digit_char_props)
  qed
qed

lemma str_nat_no_leading_zero: "0 < n \<Longrightarrow> hd (str_nat n) \<noteq> CHR ''0''"
proof (induction n rule: str_nat.induct)
  case (1 n)
  show ?case
  proof (cases "n < 10")
    case True
    then show ?thesis
      using "1.prems" by (subst str_nat.simps) (simp add: digit_char_props)
  next
    case False
    then have "hd (str_nat (n div 10)) \<noteq> CHR ''0''"
      using 1 by simp
    then show ?thesis
      using False str_nat_nonempty [of "n div 10"]
      by (subst str_nat.simps) simp
  qed
qed

lemma str_nat_length_one: "length (str_nat n) > 1 \<Longrightarrow> 0 < n"
  by (cases "n = 0") (simp_all add: str_nat.simps)

lemma parse_json_nat_str_nat:
  assumes "r \<noteq> []" and "\<not> is_digit (hd r)" and "hd r \<notin> set ''.eE''"
  shows "parse_json_nat (str_nat n @ r) = Some (n, r)"
proof -
  obtain c r' where r: "r = c # r'" using assms(1) by (cases r) auto
  have d: "\<forall>x \<in> set (str_nat n). is_digit x"
    using str_nat_digits [of n] by (simp add: list_all_iff)
  have tw: "takeWhile is_digit (str_nat n @ r) = str_nat n"
    using d assms(2) r by (simp add: takeWhile_append2)
  have dw: "dropWhile is_digit (str_nat n @ r) = r"
    using d assms(2) r by (simp add: dropWhile_append2)
  have lz: "\<not> (length (str_nat n) > 1 \<and> hd (str_nat n) = CHR ''0'')"
    using str_nat_no_leading_zero str_nat_length_one by blast
  show ?thesis
    using assms(1,3) lz
    by (simp add: parse_json_nat_def Let_def tw dw str_nat_nonempty nat_of_digits_str_nat
        del: set_simps)
qed

text \<open>What \<^const>\<open>json_loads\<close> makes of the text \<^const>\<open>json_dumps\<close> writes.\<close>

lemma checksum_text_head: "checksum_text @ r \<noteq> [] \<and> hd (checksum_text @ r) = CHR '',''"
  by (simp add: checksum_text_def)

lemma json_loads_dumps:
  assumes "plain (hd_timestamp h)" and "plain (hd_checksum h)"
  shows "json_loads (json_dumps h) = Some h"
proof -
  have n: "parse_json_nat (str_nat (hd_size h) @ checksum_text @ r)
             = Some (hd_size h, checksum_text @ r)" for r
    using checksum_text_head [of r]
    by (intro parse_json_nat_str_nat) (simp_all add: is_digit_def)
  show ?thesis
    using assms
    by (simp add: json_loads_def json_dumps_def parse_json_string_plain n)
qed

subsection \<open>Memory maps and the length field\<close>

text \<open>An \<^verbatim>\<open>mmap.mmap\<close> object: the mapped bytes and the file position.\<close>

record mmap =
  mm_data :: bytes
  mm_pos :: nat

definition mmap_seek :: "nat \<Rightarrow> mmap \<Rightarrow> mmap" where
  "mmap_seek pos m = m\<lparr> mm_pos := pos \<rparr>"

text \<open>
  \<^verbatim>\<open>mmap.write\<close> raises \<^verbatim>\<open>ValueError\<close> (data out of range) when the bytes do not fit
  between the position and the end of the map, and writes nothing then: \<^const>\<open>None\<close>.
\<close>

definition mmap_write :: "mmap \<Rightarrow> bytes \<Rightarrow> mmap option" where
  "mmap_write m bs =
     (if mm_pos m > length (mm_data m) \<or> length (mm_data m) - mm_pos m < length bs
      then None
      else Some \<lparr> mm_data = take (mm_pos m) (mm_data m) @ bs
                             @ drop (mm_pos m + length bs) (mm_data m),
                   mm_pos = mm_pos m + length bs \<rparr>)"

text \<open>\<^verbatim>\<open>mmap.read(n)\<close> returns at most the bytes that are left.\<close>

definition mmap_read :: "mmap \<Rightarrow> nat \<Rightarrow> bytes \<times> mmap" where
  "mmap_read m n =
     (let bs = take n (drop (mm_pos m) (mm_data m))
      in (bs, m\<lparr> mm_pos := mm_pos m + length bs \<rparr>))"

text \<open>
  \<^verbatim>\<open>struct.pack("<I", n)\<close>, which raises \<^verbatim>\<open>struct.error\<close> from \<open>2 ^ 32\<close> on, and
  \<^verbatim>\<open>struct.unpack("<I", bs)[0]\<close> on four bytes: the least significant byte first.
\<close>

fun le_bytes :: "nat \<Rightarrow> nat \<Rightarrow> bytes" where
  "le_bytes 0 n = []"
| "le_bytes (Suc k) n = char_of (n mod 256) # le_bytes k (n div 256)"

fun le_nat :: "bytes \<Rightarrow> nat" where
  "le_nat [] = 0"
| "le_nat (c # cs) = of_char c + 256 * le_nat cs"

definition pack_le32 :: "nat \<Rightarrow> bytes option" where
  "pack_le32 n = (if n < 2 ^ 32 then Some (le_bytes 4 n) else None)"

definition unpack_le32 :: "bytes \<Rightarrow> nat" where
  "unpack_le32 bs = le_nat bs"

lemma length_le_bytes [simp]: "length (le_bytes k n) = k"
  by (induction k arbitrary: n) simp_all

lemma le_nat_le_bytes: "n < 256 ^ k \<Longrightarrow> le_nat (le_bytes k n) = n"
proof (induction k arbitrary: n)
  case 0
  then show ?case by simp
next
  case (Suc k)
  have "n div 256 < 256 ^ k"
    using Suc.prems by (simp add: less_mult_imp_div_less mult.commute)
  then have "le_nat (le_bytes k (n div 256)) = n div 256"
    by (rule Suc.IH)
  then show ?case by simp
qed

lemma unpack_pack_le32:
  assumes "pack_le32 n = Some bs"
  shows "length bs = 4 \<and> unpack_le32 bs = n"
proof -
  have n: "n < 2 ^ 32" and bs: "bs = le_bytes 4 n"
    using assms by (auto simp add: pack_le32_def split: if_splits)
  have "(2::nat) ^ 32 = 256 ^ 4" by simp
  then have "le_nat (le_bytes 4 n) = n"
    using n le_nat_le_bytes [of n 4] by simp
  then show ?thesis
    using bs by (simp add: unpack_le32_def)
qed

subsection \<open>The bridge of the M4 container\<close>

text \<open>
  \<^verbatim>\<open>datetime.now()\<close> and its \<^verbatim>\<open>isoformat()\<close>: \<^verbatim>\<open>YYYY-MM-DDTHH:MM:SS\<close>, followed by
  the microseconds when they are not zero.
\<close>

record datetime =
  dt_year :: nat
  dt_month :: nat
  dt_day :: nat
  dt_hour :: nat
  dt_minute :: nat
  dt_second :: nat
  dt_microsecond :: nat

definition zero_pad :: "nat \<Rightarrow> nat \<Rightarrow> string" where
  "zero_pad width n = replicate (width - length (str_nat n)) (CHR ''0'') @ str_nat n"

definition isoformat :: "datetime \<Rightarrow> string" where
  "isoformat dt =
     zero_pad 4 (dt_year dt) @ ''-'' @ zero_pad 2 (dt_month dt) @ ''-'' @ zero_pad 2 (dt_day dt)
       @ ''T'' @ zero_pad 2 (dt_hour dt) @ '':'' @ zero_pad 2 (dt_minute dt)
       @ '':'' @ zero_pad 2 (dt_second dt)
       @ (if dt_microsecond dt = 0 then [] else ''.'' @ zero_pad 6 (dt_microsecond dt))"

text \<open>
  \<^verbatim>\<open>SharedMemorySegment\<close> of the M4 bridge, the \<^verbatim>\<open>performance_metrics\<close> dictionary and
  the bridge itself. The operation id and the lock play no part in what follows.
\<close>

record M4SharedMemorySegment =
  m4_name :: string
  m4_size :: int
  m4_fd :: nat
  m4_memory_map :: mmap
  m4_created_at :: datetime
  m4_access_count :: nat
  m4_last_accessed :: "datetime option"

record performance_metrics =
  operations :: nat
  bytes_transferred :: nat
  avg_latency_ms :: real
  zero_copy_operations :: nat
  memory_efficiency :: real

record M4SharedMemoryBridge =
  base_path :: string
  segments :: "(string \<times> M4SharedMemorySegment) list"
  performance_metrics :: performance_metrics

text \<open>
  What one call of the M4 bridge reads from its surroundings: the clock at
  \<^verbatim>\<open>datetime.now()\<close> for the creation time, the header and the access time; the
  milliseconds that each \<^verbatim>\<open>performance_timing\<close> block measures; and, for a path and a
  size, the file descriptor when \<^verbatim>\<open>os.open\<close>, \<^verbatim>\<open>os.ftruncate\<close> and \<^verbatim>\<open>mmap.mmap\<close>
  all go through (\<^const>\<open>None\<close> when one of them raises).
\<close>

record m4_environment =
  created_now :: datetime
  header_now :: datetime
  accessed_now :: datetime
  create_duration_ms :: real
  write_duration_ms :: real
  read_duration_ms :: real
  map_file :: "string \<Rightarrow> int \<Rightarrow> nat option"

text \<open>\<^verbatim>\<open>M4SharedMemoryBridge.__init__\<close> once the directories are set up.\<close>

definition init_m4_bridge :: "string \<Rightarrow> M4SharedMemoryBridge" where
  "init_m4_bridge path =
     \<lparr> base_path = path,
       segments = [],
       performance_metrics =
         \<lparr> operations = 0, bytes_transferred = 0, avg_latency_ms = 0,
           zero_copy_operations = 0, memory_efficiency = 0 \<rparr> \<rparr>"

text \<open>\<^verbatim>\<open>_update_performance_metrics\<close>, which the end of every timed block calls.\<close>

definition update_performance_metrics :: "real \<Rightarrow> M4SharedMemoryBridge \<Rightarrow> M4SharedMemoryBridge" where
  "update_performance_metrics duration_ms b =
     (let ops = operations (performance_metrics b)
      in if ops > 0
         then b\<lparr> performance_metrics := (performance_metrics b)
                  \<lparr> avg_latency_ms :=
                      (avg_latency_ms (performance_metrics b) * (real ops - 1) + duration_ms)
                        / real ops \<rparr> \<rparr>
         else b)"

text \<open>\<^verbatim>\<open>os.path.join\<close> of two components.\<close>

definition path_join :: "string \<Rightarrow> string \<Rightarrow> string" where
  "path_join a b =
     (if b \<noteq> [] \<and> hd b = CHR ''/'' then b
      else if a = [] \<or> last a = CHR ''/'' then a @ b
      else a @ ''/'' @ b)"

text \<open>
  \<^verbatim>\<open>create_shared_segment\<close>: the bridge afterwards, and the path of the segment, or
  \<^const>\<open>None\<close> when the exception of the operating system is raised again. A new map
  holds zero bytes; a size that is not positive cannot be mapped.
\<close>

definition create_shared_segment ::
    "m4_environment \<Rightarrow> M4SharedMemoryBridge \<Rightarrow> string \<Rightarrow> int \<Rightarrow> string
      \<Rightarrow> M4SharedMemoryBridge \<times> string option" where
  "create_shared_segment env b name size_bytes data_type =
     (let segment_path = path_join (path_join (base_path b) data_type) (name @ ''.shm'')
      in case (if size_bytes \<le> 0 then None else map_file env segment_path size_bytes) of
           None \<Rightarrow> (update_performance_metrics (create_duration_ms env) b, None)
         | Some fd \<Rightarrow>
             let segment =
                   \<lparr> m4_name = name, m4_size = size_bytes, m4_fd = fd,
                     m4_memory_map =
                       \<lparr> mm_data = replicate (nat size_bytes) (CHR 0x00), mm_pos = 0 \<rparr>,
                     m4_created_at = created_now env,
                     m4_access_count = 0, m4_last_accessed = None \<rparr>;
                 b1 = b\<lparr> segments := AList.update name segment (segments b) \<rparr>
             in (update_performance_metrics (create_duration_ms env) b1, Some segment_path))"

text \<open>
  A metadata dictionary is kept as the text that \<^verbatim>\<open>json.dumps\<close> writes for it;
  \<^verbatim>\<open>metadata or {}\<close> is the text of the empty dictionary when no metadata is given.
\<close>

definition metadata_or_empty :: "string option \<Rightarrow> string" where
  "metadata_or_empty metadata = (case metadata of None \<Rightarrow> ''{}'' | Some text \<Rightarrow> text)"

text \<open>The header that \<^verbatim>\<open>write_image_data\<close> prepares, and its JSON text.\<close>

definition write_header :: "m4_environment \<Rightarrow> bytes \<Rightarrow> string option \<Rightarrow> header_data" where
  "write_header env image_data metadata =
     \<lparr> hd_timestamp = isoformat (header_now env),
       hd_size = length image_data,
       hd_checksum = content_checksum image_data,
       hd_metadata = metadata_or_empty metadata \<rparr>"

text \<open>
  Storing a changed memory map in the segment of a bridge: the map is one object, so what
  a call has written before it fails stays written.
\<close>

definition set_memory_map :: "string \<Rightarrow> mmap \<Rightarrow> M4SharedMemoryBridge \<Rightarrow> M4SharedMemoryBridge" where
  "set_memory_map name m b =
     b\<lparr> segments := map (\<lambda>(k, s). if k = name then (k, s\<lparr> m4_memory_map := m \<rparr>) else (k, s))
                       (segments b) \<rparr>"

text \<open>
  The \<^verbatim>\<open>try\<close> block of \<^verbatim>\<open>write_image_data\<close>, with \<^verbatim>\<open>except Exception: return False\<close>.
\<close>

definition write_image_try ::
    "m4_environment \<Rightarrow> M4SharedMemoryBridge \<Rightarrow> string \<Rightarrow> bytes \<Rightarrow> string option
      \<Rightarrow> M4SharedMemoryBridge \<times> bool" where
  "write_image_try env b segment_name image_data metadata =
     (case (if has_key segment_name (segments b) then (b, True)
            else case create_shared_segment env b segment_name
                        (int (length image_data) + 1024) ''image'' of
                   (b1, path) \<Rightarrow> (b1, path \<noteq> None)) of
        (b1, False) \<Rightarrow> (b1, False)
      | (b1, True) \<Rightarrow>
     (case map_of (segments b1) segment_name of
        None \<Rightarrow> (b1, False)
      | Some segment \<Rightarrow>
          let header_json = json_dumps (write_header env image_data metadata);
              header_size = length header_json;
              m0 = mmap_seek 0 (m4_memory_map segment)
          in (case pack_le32 header_size of
                None \<Rightarrow> (set_memory_map segment_name m0 b1, False)
              | Some packed \<Rightarrow>
             (case mmap_write m0 packed of
                None \<Rightarrow> (set_memory_map segment_name m0 b1, False)
              | Some m1 \<Rightarrow>
             (case mmap_write m1 header_json of
                None \<Rightarrow> (set_memory_map segment_name m1 b1, False)
              | Some m2 \<Rightarrow>
             (case mmap_write m2 image_data of
                None \<Rightarrow> (set_memory_map segment_name m2 b1, False)
              | Some m3 \<Rightarrow>
                  (b1\<lparr> segments :=
                         AList.update segment_name
                           (segment\<lparr> m4_memory_map := m3,
                                     m4_access_count := m4_access_count segment + 1,
                                     m4_last_accessed := Some (accessed_now env) \<rparr>)
                           (segments b1),
                       performance_metrics := (performance_metrics b1)
                         \<lparr> operations := operations (performance_metrics b1) + 1,
                           bytes_transferred :=
                             bytes_transferred (performance_metrics b1) + length image_data,
                           zero_copy_operations :=
                             zero_copy_operations (performance_metrics b1) + 1 \<rparr> \<rparr>,
                   True)))))))"

text \<open>\<^verbatim>\<open>write_image_data\<close>: the \<^verbatim>\<open>try\<close> block inside its timed block.\<close>

definition write_image_data ::
    "m4_environment \<Rightarrow> M4SharedMemoryBridge \<Rightarrow> string \<Rightarrow> bytes \<Rightarrow> string option
      \<Rightarrow> M4SharedMemoryBridge \<times> bool" where
  "write_image_data env b segment_name image_data metadata =
     (case write_image_try env b segment_name image_data metadata of
        (b1, ok) \<Rightarrow> (update_performance_metrics (write_duration_ms env) b1, ok))"

text \<open>
  The \<^verbatim>\<open>try\<close> block of \<^verbatim>\<open>read_image_data\<close>, with
  \<^verbatim>\<open>except Exception: return None, None\<close>: the image data and the metadata, or
  \<^const>\<open>None\<close> twice.
\<close>

definition read_image_try ::
    "m4_environment \<Rightarrow> M4SharedMemoryBridge \<Rightarrow> string
      \<Rightarrow> M4SharedMemoryBridge \<times> bytes option \<times> string option" where
  "read_image_try env b segment_name =
     (case map_of (segments b) segment_name of
        None \<Rightarrow> (b, None, None)
      | Some segment \<Rightarrow>
          let m0 = mmap_seek 0 (m4_memory_map segment);
              (header_size_data, m1) = mmap_read m0 4
          in if length header_size_data \<noteq> 4
             then (set_memory_map segment_name m1 b, None, None)
             else
               let header_size = unpack_le32 header_size_data;
                   (header_json, m2) = mmap_read m1 header_size
               in (case json_loads header_json of
                     None \<Rightarrow> (set_memory_map segment_name m2 b, None, None)
                   | Some header \<Rightarrow>
                       let image_size = hd_size header;
                           (image_data, m3) = mmap_read m2 image_size;
                           checksum = content_checksum image_data
                       in if checksum \<noteq> hd_checksum header
                          then (set_memory_map segment_name m3 b, None, None)
                          else
                            (b\<lparr> segments :=
                                  AList.update segment_name
                                    (segment\<lparr> m4_memory_map := m3,
                                              m4_access_count := m4_access_count segment + 1,
                                              m4_last_accessed := Some (accessed_now env) \<rparr>)
                                    (segments b),
                                performance_metrics := (performance_metrics b)
                                  \<lparr> operations := operations (performance_metrics b) + 1,
                                    bytes_transferred :=
                                      bytes_transferred (performance_metrics b)
                                        + length image_data \<rparr> \<rparr>,
                             Some image_data, Some (hd_metadata header))))"

definition read_image_data ::
    "m4_environment \<Rightarrow> M4SharedMemoryBridge \<Rightarrow> string
      \<Rightarrow> M4SharedMemoryBridge \<times> bytes option \<times> string option" where
  "read_image_data env b segment_name =
     (case read_image_try env b segment_name of
        (b1, result) \<Rightarrow> (update_performance_metrics (read_duration_ms env) b1, result))"

subsection \<open>What a successful write leaves in the segment\<close>

lemma digit_plain: "is_digit c \<Longrightarrow> plain_char c"
  by (auto simp add: is_digit_def plain_char_def dquote_def backslash_def)

lemma plain_append [simp]: "plain (s @ t) \<longleftrightarrow> plain s \<and> plain t"
  by (simp add: plain_def)

lemma plain_Nil [simp]: "plain []"
  by (simp add: plain_def)

lemma plain_Cons [simp]: "plain (c # s) \<longleftrightarrow> plain_char c \<and> plain s"
  by (simp add: plain_def)

lemma plain_str_nat: "plain (str_nat n)"
  using str_nat_digits [of n] by (simp add: plain_def list_all_iff digit_plain)

lemma plain_zero_pad: "plain (zero_pad width n)"
proof -
  have "plain_char (CHR ''0'')"
    by (simp add: plain_char_def dquote_def backslash_def)
  then have "plain (replicate k (CHR ''0''))" for k
    by (induction k) simp_all
  then show ?thesis
    by (simp add: zero_pad_def plain_str_nat)
qed

lemma plain_isoformat: "plain (isoformat dt)"
  by (simp add: isoformat_def plain_zero_pad plain_char_def dquote_def backslash_def)

lemma plain_content_checksum: "plain (content_checksum image_data)"
  by (rule hex_plain) (rule content_checksum_digits)

text \<open>\<^verbatim>\<open>json.loads\<close> gives back the header that \<^verbatim>\<open>write_image_data\<close> prepared.\<close>

lemma json_loads_write_header:
  "json_loads (json_dumps (write_header env image_data metadata))
     = Some (write_header env image_data metadata)"
  by (rule json_loads_dumps) (simp_all add: write_header_def plain_isoformat plain_content_checksum)

lemma segments_update_performance_metrics [simp]:
  "segments (update_performance_metrics d b) = segments b"
  by (simp add: update_performance_metrics_def Let_def)

lemma map_of_set_memory_map:
  "map_of (segments (set_memory_map name m b)) name
     = map_option (\<lambda>s. s\<lparr> m4_memory_map := m \<rparr>) (map_of (segments b) name)"
proof -
  have "map_of (map (\<lambda>(k, s). if k = name then (k, s\<lparr> m4_memory_map := m \<rparr>) else (k, s)) xs) name
          = map_option (\<lambda>s. s\<lparr> m4_memory_map := m \<rparr>) (map_of xs name)" for xs
    by (induction xs) auto
  then show ?thesis by (simp add: set_memory_map_def)
qed

lemma mmap_write_after_prefix:
  assumes "mm_data m = pre @ old" and "mm_pos m = length pre" and "mmap_write m bs = Some m'"
  shows "mm_data m' = (pre @ bs) @ drop (length bs) old \<and> mm_pos m' = length (pre @ bs)"
  using assms by (auto simp add: mmap_write_def split: if_splits)

lemma pack_le32_length: "pack_le32 n = Some packed \<Longrightarrow> length packed = 4"
  by (auto simp add: pack_le32_def split: if_splits)

text \<open>
  The layout: the length of the header in four bytes, the header, the payload, and what
  the map held behind them before.
\<close>

lemma write_image_try_layout:
  assumes "snd (write_image_try env b name image_data metadata)"
  shows "\<exists>seg packed rest.
           map_of (segments (fst (write_image_try env b name image_data metadata))) name
             = Some seg \<and>
           pack_le32 (length (json_dumps (write_header env image_data metadata))) = Some packed \<and>
           mm_data (m4_memory_map seg)
             = packed @ json_dumps (write_header env image_data metadata) @ image_data @ rest"
proof -
  let ?hdr = "json_dumps (write_header env image_data metadata)"
  obtain b1 created where c:
    "(if has_key name (segments b) then (b, True)
      else case create_shared_segment env b name (int (length image_data) + 1024) ''image'' of
             (b1, path) \<Rightarrow> (b1, path \<noteq> None)) = (b1, created)"
    by (cases "(if has_key name (segments b) then (b, True)
      else case create_shared_segment env b name (int (length image_data) + 1024) ''image'' of
             (b1, path) \<Rightarrow> (b1, path \<noteq> None))")
  have created: created
    using assms c by (cases created) (simp_all add: write_image_try_def)
  obtain segment where s: "map_of (segments b1) name = Some segment"
    using assms c created
    by (cases "map_of (segments b1) name") (simp_all add: write_image_try_def)
  let ?m0 = "mmap_seek 0 (m4_memory_map segment)"
  obtain packed where p: "pack_le32 (length ?hdr) = Some packed"
    using assms c created s
    by (cases "pack_le32 (length ?hdr)") (simp_all add: write_image_try_def Let_def)
  obtain m1 where m1: "mmap_write ?m0 packed = Some m1"
    using assms c created s p
    by (cases "mmap_write ?m0 packed") (simp_all add: write_image_try_def Let_def)
  obtain m2 where m2: "mmap_write m1 ?hdr = Some m2"
    using assms c created s p m1
    by (cases "mmap_write m1 ?hdr") (simp_all add: write_image_try_def Let_def)
  obtain m3 where m3: "mmap_write m2 image_data = Some m3"
    using assms c created s p m1 m2
    by (cases "mmap_write m2 image_data") (simp_all add: write_image_try_def Let_def)
  have d1: "mm_data m1 = ([] @ packed) @ drop (length packed) (mm_data ?m0)
              \<and> mm_pos m1 = length ([] @ packed)"
    by (rule mmap_write_after_prefix [OF _ _ m1]) (simp_all add: mmap_seek_def)
  have d2: "mm_data m2 = (packed @ ?hdr) @ drop (length ?hdr) (drop (length packed) (mm_data ?m0))
              \<and> mm_pos m2 = length (packed @ ?hdr)"
    by (rule mmap_write_after_prefix [OF _ _ m2]) (use d1 in simp_all)
  have d3: "mm_data m3 = ((packed @ ?hdr) @ image_data)
              @ drop (length image_data)
                  (drop (length ?hdr) (drop (length packed) (mm_data ?m0)))
              \<and> mm_pos m3 = length ((packed @ ?hdr) @ image_data)"
    by (rule mmap_write_after_prefix [OF _ _ m3]) (use d2 in simp_all)
  have "map_of (segments (fst (write_image_try env b name image_data metadata))) name
          = Some (segment\<lparr> m4_memory_map := m3,
                           m4_access_count := m4_access_count segment + 1,
                           m4_last_accessed := Some (accessed_now env) \<rparr>)"
    using c created s p m1 m2 m3
    by (simp add: write_image_try_def Let_def update_conv')
  then show ?thesis
    using p d3 by simp
qed

text \<open>What \<^verbatim>\<open>read_image_data\<close> returns from a segment with this layout.\<close>

lemma read_image_try_layout:
  assumes seg: "map_of (segments b) name = Some seg"
    and data: "mm_data (m4_memory_map seg) = packed @ json_dumps h @ payload @ rest"
    and packed: "pack_le32 (length (json_dumps h)) = Some packed"
    and loads: "json_loads (json_dumps h) = Some h"
    and size: "hd_size h = length payload"
  shows "snd (read_image_try env b name)
           = (if content_checksum payload = hd_checksum h
              then (Some payload, Some (hd_metadata h)) else (None, None))"
proof -
  have l: "length packed = 4" and u: "unpack_le32 packed = length (json_dumps h)"
    using unpack_pack_le32 [OF packed] by simp_all
  let ?m0 = "mmap_seek 0 (m4_memory_map seg)"
  let ?m1 = "?m0\<lparr> mm_pos := 4 \<rparr>"
  let ?m2 = "?m0\<lparr> mm_pos := 4 + length (json_dumps h) \<rparr>"
  have r1: "mmap_read ?m0 4 = (packed, ?m1)"
    using data l by (simp add: mmap_read_def mmap_seek_def Let_def)
  have r2: "mmap_read ?m1 (length (json_dumps h)) = (json_dumps h, ?m2)"
    using data l by (simp add: mmap_read_def mmap_seek_def Let_def)
  have r3: "mmap_read ?m2 (length payload)
              = (payload, ?m0\<lparr> mm_pos := 4 + length (json_dumps h) + length payload \<rparr>)"
    using data l by (simp add: mmap_read_def mmap_seek_def Let_def)
  show ?thesis
    using seg r1 r2 r3 l u loads size
    by (simp add: read_image_try_def Let_def)
qed

lemma snd_write_image_data:
  "snd (write_image_data env b name image_data metadata)
     = snd (write_image_try env b name image_data metadata)"
  by (simp add: write_image_data_def split: prod.split)

lemma segments_write_image_data:
  "segments (fst (write_image_data env b name image_data metadata))
     = segments (fst (write_image_try env b name image_data metadata))"
  by (simp add: write_image_data_def split: prod.split)

lemma snd_read_image_data:
  "snd (read_image_data env b name) = snd (read_image_try env b name)"
  by (simp add: read_image_data_def split: prod.split)

lemma write_image_data_layout:
  assumes "snd (write_image_data env b name image_data metadata)"
  shows "\<exists>seg packed rest.
           map_of (segments (fst (write_image_data env b name image_data metadata))) name
             = Some seg \<and>
           pack_le32 (length (json_dumps (write_header env image_data metadata))) = Some packed \<and>
           mm_data (m4_memory_map seg)
             = packed @ json_dumps (write_header env image_data metadata) @ image_data @ rest"
  using assms unfolding snd_write_image_data segments_write_image_data
  by (rule write_image_try_layout)

lemma read_image_data_layout:
  assumes "map_of (segments b) name = Some seg"
    and "mm_data (m4_memory_map seg) = packed @ json_dumps h @ payload @ rest"
    and "pack_le32 (length (json_dumps h)) = Some packed"
    and "json_loads (json_dumps h) = Some h"
    and "hd_size h = length payload"
  shows "snd (read_image_data env b name)
           = (if content_checksum payload = hd_checksum h
              then (Some payload, Some (hd_metadata h)) else (None, None))"
  unfolding snd_read_image_data using assms by (rule read_image_try_layout)

subsection \<open>A payload changed behind the back of the bridge\<close>

text \<open>
  The file of a segment is mapped shared. Another process that maps it overwrites the
  stored payload: its bytes go where the payload begins, behind the length field and the
  header whose length the field gives.
\<close>

definition payload_offset :: "mmap \<Rightarrow> nat" where
  "payload_offset m = 4 + unpack_le32 (take 4 (mm_data m))"

definition overwrite_at :: "nat \<Rightarrow> bytes \<Rightarrow> mmap \<Rightarrow> mmap" where
  "overwrite_at offset bs m =
     m\<lparr> mm_data := take offset (mm_data m) @ bs @ drop (offset + length bs) (mm_data m) \<rparr>"

definition overwrite_payload :: "string \<Rightarrow> bytes \<Rightarrow> M4SharedMemoryBridge \<Rightarrow> M4SharedMemoryBridge" where
  "overwrite_payload name bs b =
     (case map_of (segments b) name of
        None \<Rightarrow> b
      | Some segment \<Rightarrow>
          set_memory_map name
            (overwrite_at (payload_offset (m4_memory_map segment)) bs (m4_memory_map segment)) b)"

lemma overwrite_payload_layout:
  assumes seg: "map_of (segments b) name = Some seg"
    and data: "mm_data (m4_memory_map seg) = packed @ header_json @ payload @ rest"
    and packed: "pack_le32 (length header_json) = Some packed"
    and len: "length bs = length payload"
  shows "\<exists>seg'. map_of (segments (overwrite_payload name bs b)) name = Some seg' \<and>
           mm_data (m4_memory_map seg') = packed @ header_json @ bs @ rest"
proof -
  have l: "length packed = 4" and u: "unpack_le32 packed = length header_json"
    using unpack_pack_le32 [OF packed] by simp_all
  have off: "payload_offset (m4_memory_map seg) = length packed + length header_json"
    using data l u by (simp add: payload_offset_def)
  have "mm_data (overwrite_at (payload_offset (m4_memory_map seg)) bs (m4_memory_map seg))
          = packed @ header_json @ bs @ rest"
    unfolding off using data len by (simp add: overwrite_at_def)
  then show ?thesis
    using seg by (simp add: overwrite_payload_def map_of_set_memory_map)
qed

subsection \<open>Payloads with one checksum\<close>

text \<open>
  There are more payloads of nine bytes than texts of sixteen hexadecimal digits, so two
  different payloads of nine bytes have the same checksum.
\<close>

lemma checksum_collision:
  "\<exists>payload payload'. length payload = 9 \<and> length payload' = 9 \<and> payload \<noteq> payload' \<and>
     content_checksum payload = content_checksum payload'"
proof -
  define A where "A = {xs :: string. set xs \<subseteq> UNIV \<and> length xs = 9}"
  define D where "D = {c. is_hex_digit c}"
  define H where "H = {xs :: string. set xs \<subseteq> D \<and> length xs = 16}"
  have cA: "card A = 256 ^ 9"
    unfolding A_def using card_lists_length_eq [of "UNIV :: char set" 9]
    by (simp add: card_UNIV_char)
  have "D = set ''0123456789abcdef''"
    unfolding D_def is_hex_digit_def by (rule Collect_mem_eq)
  then have "card D \<le> length ''0123456789abcdef''"
    by (simp only: card_length)
  then have cD: "card D \<le> 16" by simp
  have fD: "finite D"
    unfolding \<open>D = set ''0123456789abcdef''\<close> by (rule finite_set)
  have fH: "finite H"
    unfolding H_def using fD by (rule finite_lists_length_eq)
  have "card H = card D ^ 16"
    unfolding H_def using fD by (rule card_lists_length_eq)
  also have "\<dots> \<le> 16 ^ 16"
    using cD by (rule power_mono) simp
  finally have cH: "card H \<le> 16 ^ 16" .
  have "content_checksum ` A \<subseteq> H"
  proof
    fix cs assume "cs \<in> content_checksum ` A"
    then obtain payload where "cs = content_checksum payload" by blast
    then show "cs \<in> H"
      using content_checksum_length [of payload] content_checksum_digits [of payload]
      by (simp add: H_def D_def list_all_iff subset_iff)
  qed
  then have "card (content_checksum ` A) \<le> card H"
    using fH by (simp add: card_mono)
  also have "\<dots> < card A"
    using cH cA by simp
  finally have "\<not> inj_on content_checksum A"
    by (rule pigeonhole)
  then show ?thesis
    unfolding A_def inj_on_def by auto
qed

subsection \<open>When the write succeeds\<close>

lemma mmap_write_fits:
  assumes "mm_pos m + length bs \<le> length (mm_data m)"
  shows "\<exists>m'. mmap_write m bs = Some m' \<and> length (mm_data m') = length (mm_data m) \<and>
           mm_pos m' = mm_pos m + length bs"
  using assms by (simp add: mmap_write_def)

lemma length_json_string_plain: "plain s \<Longrightarrow> length (json_string s) = length s + 2"
  by (simp add: json_string_plain)

lemma length_write_header:
  "length (json_dumps (write_header env image_data metadata))
     = 73 + length (isoformat (header_now env)) + length (str_nat (length image_data))
         + length (metadata_or_empty metadata)"
  by (simp add: json_dumps_def write_header_def length_json_string_plain plain_isoformat
      plain_content_checksum content_checksum_length timestamp_text_def size_text_def
      checksum_text_def metadata_text_def key_text_def plain_char_def dquote_def
      backslash_def)

text \<open>
  A segment that does not exist yet is created with 1024 bytes more than the payload.
  When the operating system maps the file and the header takes no more than 1020 bytes,
  the write returns \<^const>\<open>True\<close>.
\<close>

lemma write_new_segment:
  assumes new: "\<not> has_key name (segments b)"
    and mapped: "map_file env
                   (path_join (path_join (base_path b) ''image'') (name @ ''.shm''))
                   (int (length image_data) + 1024) = Some fd"
    and fits: "length (json_dumps (write_header env image_data metadata)) \<le> 1020"
  shows "snd (write_image_data env b name image_data metadata)"
proof -
  let ?hdr = "json_dumps (write_header env image_data metadata)"
  let ?m0 = "\<lparr> mm_data = replicate (nat (int (length image_data) + 1024)) (CHR 0x00),
              mm_pos = 0 \<rparr>"
  let ?seg = "\<lparr> m4_name = name, m4_size = int (length image_data) + 1024, m4_fd = fd,
               m4_memory_map = ?m0, m4_created_at = created_now env,
               m4_access_count = 0, m4_last_accessed = None \<rparr>"
  let ?b1 = "update_performance_metrics (create_duration_ms env)
               (b\<lparr> segments := AList.update name ?seg (segments b) \<rparr>)"
  have c: "create_shared_segment env b name (int (length image_data) + 1024) ''image''
             = (?b1, Some (path_join (path_join (base_path b) ''image'') (name @ ''.shm'')))"
    using mapped by (simp add: create_shared_segment_def Let_def)
  have s: "map_of (segments ?b1) name = Some ?seg"
    by (simp add: update_conv')
  have "length ?hdr < 2 ^ 32" using fits by simp
  then have p: "pack_le32 (length ?hdr) = Some (le_bytes 4 (length ?hdr))"
    by (simp add: pack_le32_def)
  have "mm_pos (mmap_seek 0 ?m0) + length (le_bytes 4 (length ?hdr))
          \<le> length (mm_data (mmap_seek 0 ?m0))"
    by (simp add: mmap_seek_def)
  then obtain m1 where m1: "mmap_write (mmap_seek 0 ?m0) (le_bytes 4 (length ?hdr)) = Some m1"
    and l1: "length (mm_data m1) = length image_data + 1024" and p1: "mm_pos m1 = 4"
    using mmap_write_fits [of "mmap_seek 0 ?m0" "le_bytes 4 (length ?hdr)"]
    by (auto simp add: mmap_seek_def nat_add_distrib)
  have "mm_pos m1 + length ?hdr \<le> length (mm_data m1)"
    using fits l1 p1 by simp
  then obtain m2 where m2: "mmap_write m1 ?hdr = Some m2"
    and l2: "length (mm_data m2) = length image_data + 1024"
    and p2: "mm_pos m2 = 4 + length ?hdr"
    using mmap_write_fits [of m1 ?hdr] l1 p1 by auto
  have "mm_pos m2 + length image_data \<le> length (mm_data m2)"
    using fits l2 p2 by simp
  then obtain m3 where m3: "mmap_write m2 image_data = Some m3"
    using mmap_write_fits [of m2 image_data] by auto
  have "snd (write_image_try env b name image_data metadata)"
    using new c s p m1 m2 m3
    by (simp add: write_image_try_def Let_def)
  then show ?thesis
    by (simp add: snd_write_image_data)
qed

text \<open>
  A segment that exists takes the write when the length field, the header and the payload
  fit into its map.
\<close>

lemma write_existing_segment:
  assumes seg: "map_of (segments b) name = Some seg"
    and small: "length (json_dumps (write_header env image_data metadata)) < 2 ^ 32"
    and fits: "4 + length (json_dumps (write_header env image_data metadata))
                 + length image_data \<le> length (mm_data (m4_memory_map seg))"
  shows "snd (write_image_data env b name image_data metadata)"
proof -
  let ?hdr = "json_dumps (write_header env image_data metadata)"
  let ?m0 = "mmap_seek 0 (m4_memory_map seg)"
  have k: "has_key name (segments b)"
    using seg by (auto simp add: has_key_def dest: map_of_SomeD intro: rev_image_eqI)
  have p: "pack_le32 (length ?hdr) = Some (le_bytes 4 (length ?hdr))"
    using small by (simp add: pack_le32_def)
  have "mm_pos ?m0 + length (le_bytes 4 (length ?hdr)) \<le> length (mm_data ?m0)"
    using fits by (simp add: mmap_seek_def)
  then obtain m1 where m1: "mmap_write ?m0 (le_bytes 4 (length ?hdr)) = Some m1"
    and l1: "length (mm_data m1) = length (mm_data (m4_memory_map seg))" and p1: "mm_pos m1 = 4"
    using mmap_write_fits [of ?m0 "le_bytes 4 (length ?hdr)"]
    by (auto simp add: mmap_seek_def)
  have "mm_pos m1 + length ?hdr \<le> length (mm_data m1)"
    using fits l1 p1 by simp
  then obtain m2 where m2: "mmap_write m1 ?hdr = Some m2"
    and l2: "length (mm_data m2) = length (mm_data (m4_memory_map seg))"
    and p2: "mm_pos m2 = 4 + length ?hdr"
    using mmap_write_fits [of m1 ?hdr] l1 p1 by auto
  have "mm_pos m2 + length image_data \<le> length (mm_data m2)"
    using fits l2 p2 by simp
  then obtain m3 where m3: "mmap_write m2 image_data = Some m3"
    using mmap_write_fits [of m2 image_data] by auto
  have "snd (write_image_try env b name image_data metadata)"
    using k seg p m1 m2 m3
    by (simp add: write_image_try_def Let_def)
  then show ?thesis
    by (simp add: snd_write_image_data)
qed

subsection \<open>Round trip and detection\<close>

lemma read_written:
  assumes "snd (write_image_data env b name image_data metadata)"
  shows "snd (read_image_data env' (fst (write_image_data env b name image_data metadata)) name)
           = (Some image_data, Some (metadata_or_empty metadata))"
proof -
  obtain seg packed rest where
    "map_of (segments (fst (write_image_data env b name image_data metadata))) name = Some seg"
    "pack_le32 (length (json_dumps (write_header env image_data metadata))) = Some packed"
    "mm_data (m4_memory_map seg)
       = packed @ json_dumps (write_header env image_data metadata) @ image_data @ rest"
    using write_image_data_layout [OF assms] by blast
  then show ?thesis
    using read_image_data_layout [of "fst (write_image_data env b name image_data metadata)"
        name seg packed "write_header env image_data metadata" image_data rest env']
    by (simp add: json_loads_write_header) (simp add: write_header_def)
qed

lemma read_changed:
  assumes "snd (write_image_data env b name image_data metadata)"
    and "length changed = length image_data"
  shows "snd (read_image_data env'
                (overwrite_payload name changed
                   (fst (write_image_data env b name image_data metadata))) name)
           = (if content_checksum changed = content_checksum image_data
              then (Some changed, Some (metadata_or_empty metadata)) else (None, None))"
proof -
  let ?b1 = "fst (write_image_data env b name image_data metadata)"
  let ?h = "write_header env image_data metadata"
  obtain seg packed rest where seg: "map_of (segments ?b1) name = Some seg"
    and packed: "pack_le32 (length (json_dumps ?h)) = Some packed"
    and data: "mm_data (m4_memory_map seg) = packed @ json_dumps ?h @ image_data @ rest"
    using write_image_data_layout [OF assms(1)] by blast
  obtain seg' where seg': "map_of (segments (overwrite_payload name changed ?b1)) name = Some seg'"
    and data': "mm_data (m4_memory_map seg') = packed @ json_dumps ?h @ changed @ rest"
    using overwrite_payload_layout [OF seg data packed assms(2)] by blast
  have size: "hd_size ?h = length changed"
    using assms(2) by (simp add: write_header_def)
  show ?thesis
    using read_image_data_layout [OF seg' data' packed json_loads_write_header size, of env']
    by (simp add: write_header_def)
qed

lemma written_layout:
  assumes "snd (write_image_data env b name image_data metadata)"
  shows "\<exists>seg rest.
           map_of (segments (fst (write_image_data env b name image_data metadata))) name
             = Some seg \<and>
           mm_data (m4_memory_map seg)
             = le_bytes 4 (length (json_dumps (write_header env image_data metadata)))
                 @ json_dumps (write_header env image_data metadata) @ image_data @ rest"
proof -
  obtain seg packed rest where
    seg: "map_of (segments (fst (write_image_data env b name image_data metadata))) name = Some seg"
    and packed: "pack_le32 (length (json_dumps (write_header env image_data metadata))) = Some packed"
    and data: "mm_data (m4_memory_map seg)
       = packed @ json_dumps (write_header env image_data metadata) @ image_data @ rest"
    using write_image_data_layout [OF assms] by blast
  have "packed = le_bytes 4 (length (json_dumps (write_header env image_data metadata)))"
    using packed by (auto simp add: pack_le32_def split: if_splits)
  then show ?thesis
    using seg data by blast
qed

text \<open>
  Claim C1 (as amended). Whenever \<^verbatim>\<open>write_image_data\<close> returns true for a payload,
  on a segment it has created itself or on one that was there:
  \<^item> a following \<^verbatim>\<open>read_image_data\<close> of that segment returns the payload and the
    metadata;
  \<^item> the segment holds the length of the header in four bytes, the least significant
    first, then the JSON header, then the payload;
  \<^item> \<^verbatim>\<open>json.loads\<close> reads from that header the time stamp, the size of the payload, the
    checksum of the payload and the metadata, and the checksum is sixteen hexadecimal
    digits, the first sixteen of the SHA-256 digest of the payload;
  \<^item> when the stored payload is overwritten with other bytes of the same length,
    \<^verbatim>\<open>read_image_data\<close> returns no data exactly when the checksum of those bytes differs
    from the stored one; bytes with the same checksum are returned as the payload.
\<close>

theorem C1_round_trip_and_checksum:
  assumes "snd (write_image_data env b name image_data metadata)"
  shows "snd (read_image_data env' (fst (write_image_data env b name image_data metadata)) name)
           = (Some image_data, Some (metadata_or_empty metadata)) \<and>
         (\<exists>seg rest.
            map_of (segments (fst (write_image_data env b name image_data metadata))) name
              = Some seg \<and>
            mm_data (m4_memory_map seg)
              = le_bytes 4 (length (json_dumps (write_header env image_data metadata)))
                  @ json_dumps (write_header env image_data metadata) @ image_data @ rest) \<and>
         json_loads (json_dumps (write_header env image_data metadata))
           = Some \<lparr> hd_timestamp = isoformat (header_now env),
                    hd_size = length image_data,
                    hd_checksum = take 16 (sha256_hexdigest image_data),
                    hd_metadata = metadata_or_empty metadata \<rparr> \<and>
         length (take 16 (sha256_hexdigest image_data)) = 16 \<and>
         list_all is_hex_digit (take 16 (sha256_hexdigest image_data)) \<and>
         (\<forall>changed. length changed = length image_data \<longrightarrow>
            snd (read_image_data env'
                   (overwrite_payload name changed
                      (fst (write_image_data env b name image_data metadata))) name)
              = (if take 16 (sha256_hexdigest changed) = take 16 (sha256_hexdigest image_data)
                 then (Some changed, Some (metadata_or_empty metadata)) else (None, None)))"
proof -
  have header: "json_loads (json_dumps (write_header env image_data metadata))
           = Some \<lparr> hd_timestamp = isoformat (header_now env),
                    hd_size = length image_data,
                    hd_checksum = take 16 (sha256_hexdigest image_data),
                    hd_metadata = metadata_or_empty metadata \<rparr>"
    using json_loads_write_header [of env image_data metadata]
    by (simp add: write_header_def content_checksum_def)
  have digits: "length (take 16 (sha256_hexdigest image_data)) = 16 \<and>
         list_all is_hex_digit (take 16 (sha256_hexdigest image_data))"
    using content_checksum_length [of image_data] content_checksum_digits [of image_data]
    by (simp add: content_checksum_def)
  have changed: "\<forall>changed. length changed = length image_data \<longrightarrow>
            snd (read_image_data env'
                   (overwrite_payload name changed
                      (fst (write_image_data env b name image_data metadata))) name)
              = (if take 16 (sha256_hexdigest changed) = take 16 (sha256_hexdigest image_data)
                 then (Some changed, Some (metadata_or_empty metadata)) else (None, None))"
    using read_changed [OF assms, of _ env'] by (simp add: content_checksum_def)
  show ?thesis
    using read_written [OF assms, of env'] written_layout [OF assms] header digits changed
    by (intro conjI) blast+
qed

text \<open>
  An example, at half past ten on 15 January 2025: a new bridge on
  \<^verbatim>\<open>/dev/shm/ane-bridge\<close> with one segment of 2048 bytes, created with
  \<^verbatim>\<open>create_shared_segment("test_image", 2048, "images")\<close>. The operating system maps
  the file of that segment, in the directory \<^verbatim>\<open>images\<close> that the bridge has set up, and
  no other file.
\<close>

definition example_datetime :: datetime where
  "example_datetime =
     \<lparr> dt_year = 2025, dt_month = 1, dt_day = 15, dt_hour = 10, dt_minute = 30,
       dt_second = 0, dt_microsecond = 0 \<rparr>"

definition example_m4_env :: m4_environment where
  "example_m4_env =
     \<lparr> created_now = example_datetime, header_now = example_datetime,
       accessed_now = example_datetime, create_duration_ms = 0.5, write_duration_ms = 1,
       read_duration_ms = 1,
       map_file = (\<lambda>path size_bytes.
         if path = ''/dev/shm/ane-bridge/images/test_image.shm'' then Some 3 else None) \<rparr>"

definition example_m4_bridge :: M4SharedMemoryBridge where
  "example_m4_bridge =
     fst (create_shared_segment example_m4_env (init_m4_bridge ''/dev/shm/ane-bridge'')
            ''test_image'' 2048 ''images'')"

lemma example_m4_segment:
  "\<exists>seg. map_of (segments example_m4_bridge) ''test_image'' = Some seg \<and>
     length (mm_data (m4_memory_map seg)) = 2048"
  by (simp add: example_m4_bridge_def create_shared_segment_def init_m4_bridge_def
      example_m4_env_def path_join_def Let_def update_performance_metrics_def)

lemma example_write_succeeds:
  assumes "length image_data < 10"
  shows "snd (write_image_data example_m4_env example_m4_bridge ''test_image'' image_data None)"
proof -
  obtain seg where seg: "map_of (segments example_m4_bridge) ''test_image'' = Some seg"
    and size: "length (mm_data (m4_memory_map seg)) = 2048"
    using example_m4_segment by blast
  have "length (isoformat (header_now example_m4_env)) = 19"
    by (simp add: example_m4_env_def example_datetime_def isoformat_def zero_pad_def
        str_nat.simps)
  moreover have "length (str_nat (length image_data)) = 1"
    using assms by (simp add: str_nat.simps)
  ultimately have h: "length (json_dumps (write_header example_m4_env image_data None)) = 95"
    by (simp add: length_write_header metadata_or_empty_def)
  show ?thesis
    using seg by (rule write_existing_segment) (use h size assms in simp_all)
qed

text \<open>The payload \<^verbatim>\<open>abc\<close>, written, read back, and overwritten with \<^verbatim>\<open>abd\<close>.\<close>

theorem C1_round_trip_witness:
  "snd (write_image_data example_m4_env example_m4_bridge
          ''test_image'' ''abc'' None) \<and>
   snd (read_image_data example_m4_env
          (fst (write_image_data example_m4_env example_m4_bridge
                  ''test_image'' ''abc'' None)) ''test_image'')
     = (Some ''abc'', Some ''{}'') \<and>
   snd (read_image_data example_m4_env
          (overwrite_payload ''test_image'' ''abd''
             (fst (write_image_data example_m4_env example_m4_bridge
                     ''test_image'' ''abc'' None))) ''test_image'')
     = (if take 16 (sha256_hexdigest ''abd'') = take 16 (sha256_hexdigest ''abc'')
        then (Some ''abd'', Some ''{}'') else (None, None))"
proof -
  have w: "snd (write_image_data example_m4_env example_m4_bridge
          ''test_image'' ''abc'' None)"
    by (rule example_write_succeeds) simp
  have l: "length ''abd'' = length ''abc''" by simp
  show ?thesis
    using w l C1_round_trip_and_checksum [OF w, of example_m4_env]
    by (simp add: metadata_or_empty_def)
qed

text \<open>
  The claim as stated says that every change of the stored payload is reported. The
  checksum keeps sixteen hexadecimal digits of the digest, so two different payloads of
  nine bytes share one checksum: when the first is written and then overwritten with the
  second, \<^verbatim>\<open>read_image_data\<close> returns the second as the payload of the segment.
\<close>

theorem C1_changed_payload_returned_counterexample:
  "\<exists>payload changed.
     changed \<noteq> payload \<and> length changed = length payload \<and>
     snd (write_image_data example_m4_env example_m4_bridge
            ''test_image'' payload None) \<and>
     snd (read_image_data example_m4_env
            (overwrite_payload ''test_image'' changed
               (fst (write_image_data example_m4_env example_m4_bridge
                       ''test_image'' payload None))) ''test_image'')
       = (Some changed, Some ''{}'')"
proof -
  obtain payload changed where len: "length payload = 9" "length changed = 9"
    and ne: "payload \<noteq> changed"
    and same: "content_checksum payload = content_checksum changed"
    using checksum_collision by blast
  have w: "snd (write_image_data example_m4_env example_m4_bridge
            ''test_image'' payload None)"
    by (rule example_write_succeeds) (simp add: len)
  have "snd (read_image_data example_m4_env
            (overwrite_payload ''test_image'' changed
               (fst (write_image_data example_m4_env example_m4_bridge
                       ''test_image'' payload None))) ''test_image'')
       = (Some changed, Some ''{}'')"
    using read_changed [OF w, of changed example_m4_env] len same
    by (simp add: metadata_or_empty_def)
  then show ?thesis
    using ne len w by metis
qed

end
